theory Spec2Isabelle
  imports Main "HOL-Library.Sublist"
begin

section \<open>Errors\<close>

text \<open>
  \<^verbatim>\<open>ErrorCode\<close> and \<^verbatim>\<open>StudylibError\<close> of \<^verbatim>\<open>lib/errors/StudylibError\<close>. A JavaScript
  exception is a value of \<open>exn\<close>: a failure of a file-system call (\<open>SysError\<close>, with
  the errno name), the two runtime errors the cache code can meet, and the structured
  error of the library, which carries its message, its code and the wrapped cause
  (object-valued details are not recorded and appear as \<open>None\<close>).
\<close>

datatype ErrorCode =
  CONFIG_ERROR | API_ERROR | VALIDATION_ERROR | PARSING_ERROR | LIBRARY_NOT_FOUND
  | DOCUMENTATION_ERROR

datatype exn =
  SysError string
  | SyntaxError
  | TypeError
  | StudylibError string ErrorCode "exn option"


fun is_StudylibError :: "exn \<Rightarrow> bool" where
  "is_StudylibError (StudylibError m c d) = True"
| "is_StudylibError e = False"

section \<open>The file system\<close>

text \<open>
  The store keeps one file per entry. A file has the parsed form of its text
  (\<open>Unparseable\<close> when \<^verbatim>\<open>JSON.parse\<close> throws, \<open>Parsed ts v\<close> for the object
  \<^verbatim>\<open>{timestamp: ts, value: v}\<close>), its size in bytes, its last access time, and three
  permission bits that say whether reading, removing and \<^verbatim>\<open>stat\<close> succeed on it.
  The file system is the list of regular files by path (in the order \<^verbatim>\<open>readdir\<close>
  reports them), the existing directories with what \<^verbatim>\<open>stat\<close> reports for a directory,
  the directories that cannot be listed, and a flag for a read-only medium on which
  \<^verbatim>\<open>mkdir\<close> and \<^verbatim>\<open>writeFile\<close> fail.
\<close>

datatype 'v content = Unparseable | Parsed int 'v

record 'v fnode =
  f_content :: "'v content"
  f_size :: nat
  f_atime :: int
  f_read_ok :: bool
  f_unlink_ok :: bool
  f_stat_ok :: bool

record stats =
  st_size :: nat
  st_atime :: int

record 'v fs =
  files :: "(string \<times> 'v fnode) list"
  dirs :: "string list"
  dir_stat :: "string \<Rightarrow> stats"
  unlistable :: "string list"
  read_only :: bool

text \<open>
  \<^verbatim>\<open>path.join\<close> of a directory and a name. The runtime also normalises the result;
  the paths built here from a directory in normal form and a name without separators
  are in normal form already. \<open>ancestors\<close> are the directories above a path, outermost
  first.
\<close>

definition path_join :: "string \<Rightarrow> string \<Rightarrow> string" where
  "path_join d n = d @ ''/'' @ n"

definition ancestors :: "string \<Rightarrow> string list" where
  "ancestors p = map (\<lambda>i. take i p) (filter (\<lambda>i. 0 < i \<and> p ! i = CHR ''/'') [0..<length p])"

definition basename :: "string \<Rightarrow> string" where
  "basename p = rev (takeWhile (\<lambda>c. c \<noteq> CHR ''/'') (rev p))"

definition dirname :: "string \<Rightarrow> string" where
  "dirname p = rev (drop 1 (dropWhile (\<lambda>c. c \<noteq> CHR ''/'') (rev p)))"

definition existsSync :: "'v fs \<Rightarrow> string \<Rightarrow> bool" where
  "existsSync fs p = (p \<in> set (dirs fs) \<or> map_of (files fs) p \<noteq> None)"

text \<open>
  \<^verbatim>\<open>mkdirSync\<close> with \<^verbatim>\<open>recursive: true\<close> creates the directory and the missing
  directories above it. It fails on a read-only medium and when a regular file stands
  at the path or at a path above it.
\<close>

definition mkdirSync :: "string \<Rightarrow> 'v fs \<Rightarrow> (exn + unit) \<times> 'v fs" where
  "mkdirSync d fs =
     (if read_only fs then (Inl (SysError ''EROFS''), fs)
      else if filter (\<lambda>q. map_of (files fs) q \<noteq> None) (ancestors d) \<noteq> []
        then (Inl (SysError ''ENOTDIR''), fs)
      else if map_of (files fs) d \<noteq> None then (Inl (SysError ''EEXIST''), fs)
      else (Inr (),
            fs\<lparr>dirs := filter (\<lambda>q. q \<notin> set (dirs fs)) (ancestors d @ [d]) @ dirs fs\<rparr>))"

text \<open>
  \<^verbatim>\<open>readdir\<close> names every entry of the directory, regular files and
  subdirectories alike; \<^verbatim>\<open>stat\<close> succeeds on a directory, \<^verbatim>\<open>readFile\<close> and
  \<^verbatim>\<open>unlink\<close> fail on one.
\<close>

definition readdir :: "'v fs \<Rightarrow> string \<Rightarrow> exn + string list" where
  "readdir fs d =
     (if d \<notin> set (dirs fs) then Inl (SysError ''ENOENT'')
      else if d \<in> set (unlistable fs) then Inl (SysError ''EACCES'')
      else Inr (map basename (filter (\<lambda>p. dirname p = d) (map fst (files fs) @ dirs fs))))"

definition stat :: "'v fs \<Rightarrow> string \<Rightarrow> exn + stats" where
  "stat fs p =
     (case map_of (files fs) p of
        None \<Rightarrow> if p \<in> set (dirs fs) then Inr (dir_stat fs p) else Inl (SysError ''ENOENT'')
      | Some f \<Rightarrow>
          if f_stat_ok f then Inr \<lparr>st_size = f_size f, st_atime = f_atime f\<rparr>
          else Inl (SysError ''EACCES''))"

definition readFile :: "'v fs \<Rightarrow> string \<Rightarrow> exn + 'v content" where
  "readFile fs p =
     (case map_of (files fs) p of
        None \<Rightarrow> if p \<in> set (dirs fs) then Inl (SysError ''EISDIR'') else Inl (SysError ''ENOENT'')
      | Some f \<Rightarrow> if f_read_ok f then Inr (f_content f) else Inl (SysError ''EACCES''))"

definition unlink :: "string \<Rightarrow> 'v fs \<Rightarrow> (exn + unit) \<times> 'v fs" where
  "unlink p fs =
     (case map_of (files fs) p of
        None \<Rightarrow>
          if p \<in> set (dirs fs) then (Inl (SysError ''EISDIR''), fs)
          else (Inl (SysError ''ENOENT''), fs)
      | Some f \<Rightarrow>
          if f_unlink_ok f then (Inr (), fs\<lparr>files := filter (\<lambda>e. fst e \<noteq> p) (files fs)\<rparr>)
          else (Inl (SysError ''EPERM''), fs))"

text \<open>
  \<^verbatim>\<open>writeFile\<close> creates the file or replaces its text in place. A new file is
  readable, removable and its access time is the time of its creation. A file that is
  rewritten keeps its access time; it could be opened for writing, and the model takes
  it to be readable and removable from then on.
\<close>

definition new_file :: "int \<Rightarrow> 'v content \<Rightarrow> nat \<Rightarrow> 'v fnode" where
  "new_file now c n =
     \<lparr>f_content = c, f_size = n, f_atime = now, f_read_ok = True, f_unlink_ok = True,
      f_stat_ok = True\<rparr>"

definition writeFile :: "int \<Rightarrow> string \<Rightarrow> 'v content \<Rightarrow> nat \<Rightarrow> 'v fs \<Rightarrow> (exn + unit) \<times> 'v fs" where
  "writeFile now p c n fs =
     (if read_only fs then (Inl (SysError ''EROFS''), fs)
      else if dirname p \<notin> set (dirs fs) then (Inl (SysError ''ENOENT''), fs)
      else if p \<in> set (dirs fs) then (Inl (SysError ''EISDIR''), fs)
      else if map_of (files fs) p = None
        then (Inr (), fs\<lparr>files := files fs @ [(p, new_file now c n)]\<rparr>)
      else (Inr (),
            fs\<lparr>files := map (\<lambda>e. if fst e = p
                                then (p, (new_file now c n)\<lparr>f_atime := f_atime (snd e)\<rparr>)
                                else e) (files fs)\<rparr>))"

text \<open>
  The regular files directly in a directory, the bytes they occupy, and what
  \<^verbatim>\<open>readdir\<close> followed by \<^verbatim>\<open>stat\<close> reports for one of them. A directory is flat
  when it holds no subdirectory.
\<close>

definition flat_dir :: "string \<Rightarrow> 'v fs \<Rightarrow> bool" where
  "flat_dir d fs = (filter (\<lambda>q. dirname q = d) (dirs fs) = [])"

definition dir_entries :: "string \<Rightarrow> 'v fs \<Rightarrow> (string \<times> 'v fnode) list" where
  "dir_entries d fs = filter (\<lambda>e. dirname (fst e) = d) (files fs)"

definition dir_size :: "string \<Rightarrow> 'v fs \<Rightarrow> nat" where
  "dir_size d fs = sum_list (map (\<lambda>e. f_size (snd e)) (dir_entries d fs))"

definition entry_stats :: "string \<times> 'v fnode \<Rightarrow> string \<times> stats" where
  "entry_stats e = (basename (fst e), \<lparr>st_size = f_size (snd e), st_atime = f_atime (snd e)\<rparr>)"

section \<open>The persistent cache store (CacheManager)\<close>

record CacheOptions =
  o_cacheDir :: "string option"
  o_ttl :: "int option"
  o_maxSize :: "int option"

record CacheManager =
  cacheDir :: string
  ttl :: int
  maxSize :: int

text \<open>
  \<^verbatim>\<open>a || b\<close> on an optional string and on an optional number: the left operand is
  taken unless it is falsy, that is \<^verbatim>\<open>undefined\<close>, the empty string or \<open>0\<close>.
\<close>

definition or_string :: "string option \<Rightarrow> string \<Rightarrow> string" where
  "or_string a b = (case a of None \<Rightarrow> b | Some s \<Rightarrow> if s = [] then b else s)"

definition or_number :: "int option \<Rightarrow> int \<Rightarrow> int" where
  "or_number a b = (case a of None \<Rightarrow> b | Some n \<Rightarrow> if n = 0 then b else n)"

definition initializeCache :: "CacheManager \<Rightarrow> 'v fs \<Rightarrow> (exn + unit) \<times> 'v fs" where
  "initializeCache cm fs =
     (case (if \<not> existsSync fs (cacheDir cm) then mkdirSync (cacheDir cm) fs else (Inr (), fs)) of
        (Inl error, fs') \<Rightarrow>
          (Inl (StudylibError ''Failed to initialize cache directory'' CONFIG_ERROR (Some error)),
           fs')
      | (Inr u, fs') \<Rightarrow> (Inr (), fs'))"

text \<open>The constructor; \<open>home\<close> is \<^verbatim>\<open>os.homedir()\<close>.\<close>

definition constructor :: "string \<Rightarrow> CacheOptions option \<Rightarrow> 'v fs \<Rightarrow> (exn + CacheManager) \<times> 'v fs" where
  "constructor home options fs =
     (let cm = \<lparr>cacheDir = or_string (Option.bind options o_cacheDir)
                              (path_join (path_join home ''.studylib'') ''cache''),
                ttl = or_number (Option.bind options o_ttl) (24 * 60 * 60 * 1000),
                maxSize = or_number (Option.bind options o_maxSize) (100 * 1024 * 1024)\<rparr>
      in case initializeCache cm fs of
           (Inl e, fs') \<Rightarrow> (Inl e, fs')
         | (Inr u, fs') \<Rightarrow> (Inr cm, fs'))"

text \<open>
  \<^verbatim>\<open>CacheManager.getInstance\<close>: the static field \<^verbatim>\<open>instance\<close> is the first component
  of the state. The options are read only when the field is still unset.
\<close>

definition getInstance ::
  "string \<Rightarrow> CacheOptions option \<Rightarrow> CacheManager option \<times> 'v fs
     \<Rightarrow> (exn + CacheManager) \<times> CacheManager option \<times> 'v fs" where
  "getInstance home options s =
     (case fst s of
        None \<Rightarrow>
          (case constructor home options (snd s) of
             (Inl e, fs') \<Rightarrow> (Inl e, None, fs')
           | (Inr cm, fs') \<Rightarrow> (Inr cm, Some cm, fs'))
      | Some cm \<Rightarrow> (Inr cm, Some cm, snd s))"

text \<open>The options the library resolver and the documentation cache pass.\<close>

definition library_cache_options :: "string \<Rightarrow> CacheOptions" where
  "library_cache_options home =
     \<lparr>o_cacheDir = Some (path_join (path_join home ''.studylib'') ''library-cache''),
      o_ttl = Some (7 * 24 * 60 * 60 * 1000), o_maxSize = None\<rparr>"

definition ai_cache_options :: "string \<Rightarrow> CacheOptions" where
  "ai_cache_options home =
     \<lparr>o_cacheDir = Some (path_join (path_join home ''.studylib'') ''ai-cache''),
      o_ttl = Some (30 * 24 * 60 * 60 * 1000), o_maxSize = Some (500 * 1024 * 1024)\<rparr>"

subsection \<open>File names\<close>

text \<open>
  \<^verbatim>\<open>Buffer.from(key).toString('base64')\<close>: the key is its sequence of UTF-8 bytes,
  three bytes give four characters of the standard alphabet, and the last group is
  padded with \<open>=\<close>.
\<close>

definition b64_alphabet :: string where
  "b64_alphabet = ''ABCDEFGHIJKLMNOPQRSTUVWXYZabcdefghijklmnopqrstuvwxyz0123456789+/''"

definition b64_char :: "nat \<Rightarrow> char" where
  "b64_char n = b64_alphabet ! n"

fun base64_bytes :: "nat list \<Rightarrow> string" where
  "base64_bytes [] = []"
| "base64_bytes [a] = [b64_char (a div 4), b64_char ((a mod 4) * 16), CHR ''='', CHR ''='']"
| "base64_bytes [a, b] =
     [b64_char (a div 4), b64_char ((a mod 4) * 16 + b div 16), b64_char ((b mod 16) * 4),
      CHR ''='']"
| "base64_bytes (a # b # c # rest) =
     [b64_char (a div 4), b64_char ((a mod 4) * 16 + b div 16),
      b64_char ((b mod 16) * 4 + c div 64), b64_char (c mod 64)] @ base64_bytes rest"

definition base64 :: "string \<Rightarrow> string" where
  "base64 key = base64_bytes (map of_char key)"

definition safeKey :: "string \<Rightarrow> string" where
  "safeKey key =
     map (\<lambda>c. if c = CHR ''/'' \<or> c = CHR ''+'' \<or> c = CHR ''='' then CHR ''_'' else c)
       (base64 key)"

definition getCacheFilePath :: "CacheManager \<Rightarrow> string \<Rightarrow> string" where
  "getCacheFilePath cm key = path_join (cacheDir cm) (safeKey key @ ''.json'')"


subsection \<open>Exceptions and serialisation\<close>

text \<open>
  A computation returns its result or the exception it threw, with the file system it
  left. \<open>catch\<close> is \<^verbatim>\<open>try { ... } catch (error) { ... }\<close>: the handler runs on the
  file system the body left behind.
\<close>

definition catch :: "(exn + 'a) \<times> 's \<Rightarrow> (exn \<Rightarrow> 's \<Rightarrow> (exn + 'a) \<times> 's) \<Rightarrow> (exn + 'a) \<times> 's" where
  "catch r handler = (case r of (Inl error, s) \<Rightarrow> handler error s | (Inr a, s) \<Rightarrow> (Inr a, s))"

text \<open>
  \<^verbatim>\<open>JSON.stringify\<close> and \<^verbatim>\<open>JSON.parse\<close> belong to the runtime. \<open>j_value v\<close> is the
  value that parsing the text of \<open>v\<close> gives back, \<open>None\<close> when \<^verbatim>\<open>JSON.stringify\<close>
  throws (a cyclic object); \<open>j_size ts v\<close> is the length in bytes of the text of
  \<^verbatim>\<open>{timestamp: ts, value: v}\<close>.
\<close>

record 'v json =
  j_value :: "'v \<Rightarrow> 'v option"
  j_size :: "int \<Rightarrow> 'v \<Rightarrow> nat"

subsection \<open>delete, get\<close>

definition CacheManager_delete :: "CacheManager \<Rightarrow> string \<Rightarrow> 'v fs \<Rightarrow> (exn + unit) \<times> 'v fs" where
  "CacheManager_delete cm key fs =
     catch
       (let filePath = getCacheFilePath cm key
        in if existsSync fs filePath then unlink filePath fs else (Inr (), fs))
       (\<lambda>error fs'. (Inr (), fs'))"

definition get_body :: "CacheManager \<Rightarrow> int \<Rightarrow> string \<Rightarrow> 'v fs \<Rightarrow> (exn + 'v option) \<times> 'v fs" where
  "get_body cm now key fs =
     (let filePath = getCacheFilePath cm key
      in if \<not> existsSync fs filePath then (Inr None, fs)
         else case readFile fs filePath of
                Inl error \<Rightarrow> (Inl error, fs)
              | Inr Unparseable \<Rightarrow> (Inl SyntaxError, fs)
              | Inr (Parsed timestamp v) \<Rightarrow>
                  if now - timestamp > ttl cm
                  then (case CacheManager_delete cm key fs of
                          (Inl error, fs') \<Rightarrow> (Inl error, fs')
                        | (Inr u, fs') \<Rightarrow> (Inr None, fs'))
                  else (Inr (Some v), fs))"

definition CacheManager_get :: "CacheManager \<Rightarrow> int \<Rightarrow> string \<Rightarrow> 'v fs \<Rightarrow> (exn + 'v option) \<times> 'v fs" where
  "CacheManager_get cm now key fs = catch (get_body cm now key fs) (\<lambda>error fs'. (Inr None, fs'))"

subsection \<open>Size accounting and eviction\<close>

fun stat_all :: "'v fs \<Rightarrow> string \<Rightarrow> string list \<Rightarrow> exn + (string \<times> stats) list" where
  "stat_all fs d [] = Inr []"
| "stat_all fs d (file # rest) =
     (case stat fs (path_join d file) of
        Inl error \<Rightarrow> Inl error
      | Inr st \<Rightarrow>
          (case stat_all fs d rest of
             Inl error \<Rightarrow> Inl error
           | Inr sts \<Rightarrow> Inr ((file, st) # sts)))"

definition getCacheSize :: "CacheManager \<Rightarrow> 'v fs \<Rightarrow> nat" where
  "getCacheSize cm fs =
     (case readdir fs (cacheDir cm) of
        Inl error \<Rightarrow> 0
      | Inr listing \<Rightarrow>
          (case stat_all fs (cacheDir cm) listing of
             Inl error \<Rightarrow> 0
           | Inr sts \<Rightarrow> foldl (\<lambda>total size. total + size) 0 (map (\<lambda>e. st_size (snd e)) sts)))"

fun evict :: "CacheManager \<Rightarrow> (string \<times> stats) list \<Rightarrow> int \<Rightarrow> 'v fs \<Rightarrow> (exn + unit) \<times> 'v fs" where
  "evict cm [] size' fs = (Inr (), fs)"
| "evict cm ((file, st) # rest) size' fs =
     (if size' \<le> maxSize cm then (Inr (), fs)
      else case unlink (path_join (cacheDir cm) file) fs of
             (Inl error, fs') \<Rightarrow> (Inl error, fs')
           | (Inr u, fs') \<Rightarrow> evict cm rest (size' - int (st_size st)) fs')"

definition ensureCacheSpace :: "CacheManager \<Rightarrow> 'v fs \<Rightarrow> (exn + unit) \<times> 'v fs" where
  "ensureCacheSpace cm fs =
     (let currentSize = getCacheSize cm fs
      in if int currentSize > maxSize cm
         then catch
                (case readdir fs (cacheDir cm) of
                   Inl error \<Rightarrow> (Inl error, fs)
                 | Inr listing \<Rightarrow>
                     (case stat_all fs (cacheDir cm) listing of
                        Inl error \<Rightarrow> (Inl error, fs)
                      | Inr fileStats \<Rightarrow>
                          evict cm (sort_key (\<lambda>e. st_atime (snd e)) fileStats)
                            (int currentSize) fs))
                (\<lambda>error fs'. (Inr (), fs'))
         else (Inr (), fs))"

subsection \<open>set, clear\<close>

definition set_body :: "'v json \<Rightarrow> CacheManager \<Rightarrow> int \<Rightarrow> string \<Rightarrow> 'v \<Rightarrow> 'v fs \<Rightarrow> (exn + unit) \<times> 'v fs" where
  "set_body J cm now key v fs =
     (case ensureCacheSpace cm fs of
        (Inl error, fs1) \<Rightarrow> (Inl error, fs1)
      | (Inr u, fs1) \<Rightarrow>
          (let filePath = getCacheFilePath cm key
           in case j_value J v of
                None \<Rightarrow> (Inl TypeError, fs1)
              | Some v' \<Rightarrow> writeFile now filePath (Parsed now v') (j_size J now v) fs1))"

definition CacheManager_set :: "'v json \<Rightarrow> CacheManager \<Rightarrow> int \<Rightarrow> string \<Rightarrow> 'v \<Rightarrow> 'v fs \<Rightarrow> (exn + unit) \<times> 'v fs" where
  "CacheManager_set J cm now key v fs =
     catch (set_body J cm now key v fs) (\<lambda>error fs'. (Inr (), fs'))"

text \<open>
  \<^verbatim>\<open>Promise.all\<close> over the removals: every removal is attempted, and the result is the
  first failure when there is one.
\<close>

fun unlink_all :: "string list \<Rightarrow> 'v fs \<Rightarrow> (exn + unit) \<times> 'v fs" where
  "unlink_all [] fs = (Inr (), fs)"
| "unlink_all (p # ps) fs =
     (case unlink p fs of
        (r, fs') \<Rightarrow>
          (case unlink_all ps fs' of
             (r', fs'') \<Rightarrow> (case r of Inl error \<Rightarrow> (Inl error, fs'') | Inr u \<Rightarrow> (r', fs''))))"

definition CacheManager_clear :: "CacheManager \<Rightarrow> 'v fs \<Rightarrow> (exn + unit) \<times> 'v fs" where
  "CacheManager_clear cm fs =
     catch
       (case readdir fs (cacheDir cm) of
          Inl error \<Rightarrow> (Inl error, fs)
        | Inr listing \<Rightarrow> unlink_all (map (path_join (cacheDir cm)) listing) fs)
       (\<lambda>error fs'. (Inl (StudylibError ''Failed to clear cache'' CONFIG_ERROR (Some error)), fs'))"

section \<open>The library resolver (RequireLibraryContext)\<close>

subsection \<open>Name validation\<close>

text \<open>
  \<^verbatim>\<open>path.normalize\<close> and \<^verbatim>\<open>path.isAbsolute\<close> come from the runtime's path module and
  differ between platforms, so the resolver takes them as a parameter. \<open>posix_path\<close>
  below is the POSIX instance.
\<close>

record path_api =
  normalize :: "string \<Rightarrow> string"
  isAbsolute :: "string \<Rightarrow> bool"

text \<open>\<^verbatim>\<open>String.prototype.includes\<close>: the argument occurs as a contiguous substring.\<close>

fun string_includes :: "string \<Rightarrow> string \<Rightarrow> bool" where
  "string_includes [] sub = (sub = [])"
| "string_includes (c # cs) sub = (prefix sub (c # cs) \<or> string_includes cs sub)"

definition validateLibraryName :: "path_api \<Rightarrow> string \<Rightarrow> exn + unit" where
  "validateLibraryName P libraryName =
     (if libraryName = []
      then Inl (StudylibError ''Library name must be a non-empty string'' VALIDATION_ERROR None)
      else let normalizedPath = normalize P libraryName
           in if string_includes normalizedPath ''..'' \<or> isAbsolute P normalizedPath
              then Inl (StudylibError
                     ''Invalid library name: must not contain path traversal or absolute paths''
                     VALIDATION_ERROR None)
              else Inr ())"

text \<open>The segments of a path: the pieces between separators (\<open>/\<close> or \<open>\\<close>).\<close>

definition is_sep :: "char \<Rightarrow> bool" where
  "is_sep c = (c = CHR ''/'' \<or> c = CHR 0x5C)"

fun segments :: "string \<Rightarrow> string list" where
  "segments [] = [[]]"
| "segments (c # cs) =
     (if is_sep c then [] # segments cs
      else (case segments cs of [] \<Rightarrow> [[c]] | s # ss \<Rightarrow> (c # s) # ss))"

text \<open>
  The POSIX \<^verbatim>\<open>path.normalize\<close>: empty and \<open>.\<close> segments are dropped, a \<open>..\<close> segment
  removes the segment before it, or is kept when there is none to remove and the path
  is relative; a trailing separator is kept.
\<close>

fun posix_segments :: "string \<Rightarrow> string list" where
  "posix_segments [] = [[]]"
| "posix_segments (c # cs) =
     (if c = CHR ''/'' then [] # posix_segments cs
      else (case posix_segments cs of [] \<Rightarrow> [[c]] | s # ss \<Rightarrow> (c # s) # ss))"

definition normalize_step :: "bool \<Rightarrow> string list \<Rightarrow> string \<Rightarrow> string list" where
  "normalize_step allowAboveRoot acc seg =
     (if seg = [] \<or> seg = ''.'' then acc
      else if seg = ''..''
        then (case acc of
                [] \<Rightarrow> if allowAboveRoot then [''..''] else []
              | s # rest \<Rightarrow> if s = ''..'' then ''..'' # s # rest else rest)
      else seg # acc)"

fun join_segments :: "string list \<Rightarrow> string" where
  "join_segments [] = []"
| "join_segments [s] = s"
| "join_segments (s # t # rest) = s @ ''/'' @ join_segments (t # rest)"

definition posix_isAbsolute :: "string \<Rightarrow> bool" where
  "posix_isAbsolute p = (p \<noteq> [] \<and> hd p = CHR ''/'')"

definition posix_normalize :: "string \<Rightarrow> string" where
  "posix_normalize p =
     (if p = [] then ''.''
      else let isAbs = posix_isAbsolute p;
               trailingSeparator = (last p = CHR ''/'');
               body = join_segments
                        (rev (foldl (normalize_step (\<not> isAbs)) [] (posix_segments p)))
           in if body = [] then (if isAbs then ''/'' else if trailingSeparator then ''./'' else ''.'')
              else (if isAbs then ''/'' else []) @ body @ (if trailingSeparator then ''/'' else []))"

definition posix_path :: path_api where
  "posix_path = \<lparr>normalize = posix_normalize, isAbsolute = posix_isAbsolute\<rparr>"

subsection \<open>The in-memory tier\<close>

record PackageInfo =
  pkg_name :: "string option"
  pkg_version :: "string option"
  pkg_types :: "string option"
  pkg_dependencies :: "(string \<times> string) list"
  pkg_devDependencies :: "(string \<times> string) list"
  pkg_peerDependencies :: "(string \<times> string) list"

record 'x LibraryCache =
  exports :: 'x
  packageInfo :: "PackageInfo option"
  lastAccessed :: int
  hasDefaultExport :: bool
  fileHash :: string

definition memoryCacheTimeout :: int where
  "memoryCacheTimeout = 5 * 60 * 1000"

definition maxMemoryCacheSize :: nat where
  "maxMemoryCacheSize = 50"

text \<open>
  A JavaScript \<^verbatim>\<open>Map\<close> keeps its keys in insertion order: \<^verbatim>\<open>set\<close> on a present key
  replaces the value where it stands, on a new key appends.
\<close>

type_synonym 'x memory_cache = "(string \<times> 'x LibraryCache) list"

fun map_set :: "'k \<Rightarrow> 'a \<Rightarrow> ('k \<times> 'a) list \<Rightarrow> ('k \<times> 'a) list" where
  "map_set k v [] = [(k, v)]"
| "map_set k v (e # rest) = (if fst e = k then (k, v) # rest else e # map_set k v rest)"

definition map_delete :: "'k \<Rightarrow> ('k \<times> 'a) list \<Rightarrow> ('k \<times> 'a) list" where
  "map_delete k m = filter (\<lambda>e. fst e \<noteq> k) m"

text \<open>
  The second loop of \<^verbatim>\<open>cleanMemoryCache\<close>: \<^verbatim>\<open>entries.shift()!\<close> on an exhausted array
  is \<^verbatim>\<open>undefined\<close>, and destructuring it throws.
\<close>

fun remove_oldest :: "(string \<times> 'x LibraryCache) list \<Rightarrow> 'x memory_cache \<Rightarrow> exn + 'x memory_cache" where
  "remove_oldest [] mc = (if length mc > maxMemoryCacheSize then Inl TypeError else Inr mc)"
| "remove_oldest (e # entries) mc =
     (if length mc > maxMemoryCacheSize then remove_oldest entries (map_delete (fst e) mc)
      else Inr mc)"

definition cleanMemoryCache :: "int \<Rightarrow> 'x memory_cache \<Rightarrow> exn + 'x memory_cache" where
  "cleanMemoryCache now mc =
     (let mc1 = filter (\<lambda>e. \<not> (now - lastAccessed (snd e) > memoryCacheTimeout)) mc
      in if length mc1 > maxMemoryCacheSize
         then remove_oldest (sort_key (\<lambda>e. lastAccessed (snd e)) mc1) mc1
         else Inr mc1)"

definition getFromMemoryCache ::
  "int \<Rightarrow> string \<Rightarrow> 'x memory_cache \<Rightarrow> 'x LibraryCache option \<times> 'x memory_cache" where
  "getFromMemoryCache now libraryName mc =
     (case map_of mc libraryName of
        None \<Rightarrow> (None, mc)
      | Some cached \<Rightarrow>
          (let cached' = cached\<lparr>lastAccessed := now\<rparr>
           in (Some cached', map_set libraryName cached' mc)))"

definition setInMemoryCache ::
  "int \<Rightarrow> string \<Rightarrow> 'x LibraryCache \<Rightarrow> 'x memory_cache \<Rightarrow> exn + 'x memory_cache" where
  "setInMemoryCache now libraryName cache mc =
     (case cleanMemoryCache now mc of
        Inl error \<Rightarrow> Inl error
      | Inr mc' \<Rightarrow> Inr (map_set libraryName cache mc'))"

subsection \<open>Resolution\<close>

text \<open>
  What the resolver stores in the persistent store: a library entry under the key
  \<open>name:hash\<close>, a package descriptor under \<open>name:package:hash\<close>. \<^verbatim>\<open>get<T>\<close> casts what
  it finds without a check; \<open>as_lib\<close> and \<open>as_pkg\<close> are these casts, and what they
  return on a value of the other shape is left to the runtime record.

  The runtime record holds what the language runtime decides about an opaque module
  value \<open>'x\<close>: whether it is truthy, whether it is a function, whether it is an object
  marked \<^verbatim>\<open>__esModule\<close> with a \<^verbatim>\<open>default\<close> member, the object
  \<^verbatim>\<open>{ default: library, ...library }\<close>, and the SHA-256 digest in hexadecimal.
  The world record holds what lies outside the cache directory: \<^verbatim>\<open>require.resolve\<close>,
  the bytes of the module files, and what \<^verbatim>\<open>require\<close> returns for a path.
\<close>

datatype 'x cached_value = CLib "'x LibraryCache" | CPkg PackageInfo

record 'x runtime =
  truthy :: "'x \<Rightarrow> bool"
  is_function :: "'x \<Rightarrow> bool"
  is_esModule_with_default :: "'x \<Rightarrow> bool"
  with_default :: "'x \<Rightarrow> 'x"
  sha256_hex :: "string \<Rightarrow> string"
  lib_of_pkg :: "PackageInfo \<Rightarrow> 'x LibraryCache"
  pkg_of_lib :: "'x LibraryCache \<Rightarrow> PackageInfo"
  paths :: path_api
  json_of :: "'x cached_value json"

record 'x world =
  resolve :: "string \<Rightarrow> exn + string"
  disk :: "string \<Rightarrow> string option"
  require :: "string \<Rightarrow> exn + 'x"
  require_json :: "string \<Rightarrow> exn + PackageInfo option"

fun as_lib :: "'x runtime \<Rightarrow> 'x cached_value \<Rightarrow> 'x LibraryCache" where
  "as_lib rt (CLib c) = c"
| "as_lib rt (CPkg p) = lib_of_pkg rt p"

fun as_pkg :: "'x runtime \<Rightarrow> 'x cached_value \<Rightarrow> PackageInfo" where
  "as_pkg rt (CPkg p) = p"
| "as_pkg rt (CLib c) = pkg_of_lib rt c"

text \<open>
  The effects a call has outside the caches are recorded in a trace, in order.
\<close>

datatype event = Resolve string | Hash string | Load string

record 'x rstate =
  memoryCache :: "'x memory_cache"
  cache_fs :: "'x cached_value fs"
  trace :: "event list"

definition log_event :: "event \<Rightarrow> 'x rstate \<Rightarrow> 'x rstate" where
  "log_event ev st = st\<lparr>trace := trace st @ [ev]\<rparr>"

definition getFileHash :: "'x runtime \<Rightarrow> 'x world \<Rightarrow> string \<Rightarrow> exn + string" where
  "getFileHash rt w filePath =
     (case disk w filePath of
        None \<Rightarrow> Inl (SysError ''ENOENT'')
      | Some bytes \<Rightarrow> Inr (sha256_hex rt bytes))"

definition isValidPackageInfo :: "PackageInfo option \<Rightarrow> bool" where
  "isValidPackageInfo info =
     (case info of
        None \<Rightarrow> False
      | Some p \<Rightarrow> pkg_name p \<noteq> None \<and> pkg_version p \<noteq> None)"

definition checkDefaultExport :: "'x runtime \<Rightarrow> 'x \<Rightarrow> bool" where
  "checkDefaultExport rt library =
     (if is_function rt library then True
      else if is_esModule_with_default rt library then True
      else False)"

text \<open>
  The resolver holds the store it obtained from \<^verbatim>\<open>CacheManager.getInstance\<close> in its
  field \<^verbatim>\<open>fileCache\<close>; the functions below take it as \<open>fc\<close>. \<open>now\<close> is the clock
  reading during the call.
\<close>

text \<open>A name between double quotes, as the error messages print it.\<close>

definition quoted :: "string \<Rightarrow> string" where
  "quoted s = CHR 0x22 # s @ [CHR 0x22]"

definition rethrow_or_null ::
  "exn \<Rightarrow> 'x rstate \<Rightarrow> (exn + PackageInfo option) \<times> 'x rstate" where
  "rethrow_or_null error st = (if is_StudylibError error then (Inl error, st) else (Inr None, st))"

definition getPackageInfo_body ::
  "'x runtime \<Rightarrow> CacheManager \<Rightarrow> 'x world \<Rightarrow> int \<Rightarrow> string \<Rightarrow> 'x rstate
     \<Rightarrow> (exn + PackageInfo option) \<times> 'x rstate" where
  "getPackageInfo_body rt fc w now libraryName st1 =
     (let st2 = log_event (Resolve (libraryName @ ''/package.json'')) st1
      in case resolve w (libraryName @ ''/package.json'') of
           Inl error \<Rightarrow> (Inl error, st2)
         | Inr packagePath \<Rightarrow>
             (let st3 = log_event (Hash packagePath) st2
              in case getFileHash rt w packagePath of
                   Inl error \<Rightarrow> (Inl error, st3)
                 | Inr hash \<Rightarrow>
                     (let cacheKey = libraryName @ '':package:'' @ hash
                      in case CacheManager_get fc now cacheKey (cache_fs st3) of
                           (Inl error, fs') \<Rightarrow> (Inl error, st3\<lparr>cache_fs := fs'\<rparr>)
                         | (Inr (Some fileCached), fs') \<Rightarrow>
                             (Inr (Some (as_pkg rt fileCached)), st3\<lparr>cache_fs := fs'\<rparr>)
                         | (Inr None, fs') \<Rightarrow>
                             (let st4 = log_event (Load packagePath) (st3\<lparr>cache_fs := fs'\<rparr>)
                              in case require_json w packagePath of
                                   Inl error \<Rightarrow> (Inl error, st4)
                                 | Inr info \<Rightarrow>
                                     if \<not> isValidPackageInfo info
                                     then (Inl (StudylibError
                                                  (''Invalid package.json for '' @ quoted libraryName)
                                                  VALIDATION_ERROR None), st4)
                                     else (case CacheManager_set (json_of rt) fc now cacheKey
                                                  (CPkg (the info)) (cache_fs st4) of
                                             (Inl error, fs'') \<Rightarrow>
                                               (Inl error, st4\<lparr>cache_fs := fs''\<rparr>)
                                           | (Inr u, fs'') \<Rightarrow>
                                               (Inr info, st4\<lparr>cache_fs := fs''\<rparr>))))))"

definition getPackageInfo ::
  "'x runtime \<Rightarrow> CacheManager \<Rightarrow> 'x world \<Rightarrow> int \<Rightarrow> string \<Rightarrow> 'x rstate
     \<Rightarrow> (exn + PackageInfo option) \<times> 'x rstate" where
  "getPackageInfo rt fc w now libraryName st =
     (case validateLibraryName (paths rt) libraryName of
        Inl error \<Rightarrow> (Inl error, st)
      | Inr u \<Rightarrow>
          (case getFromMemoryCache now libraryName (memoryCache st) of
             (memCached, mc1) \<Rightarrow>
               (let st1 = st\<lparr>memoryCache := mc1\<rparr>
                in case Option.bind memCached packageInfo of
                     Some info \<Rightarrow> (Inr (Some info), st1)
                   | None \<Rightarrow>
                       catch (getPackageInfo_body rt fc w now libraryName st1) rethrow_or_null)))"

definition rethrow_or_not_found ::
  "string \<Rightarrow> exn \<Rightarrow> 'x rstate \<Rightarrow> (exn + 'x) \<times> 'x rstate" where
  "rethrow_or_not_found libraryName error st =
     (if is_StudylibError error then (Inl error, st)
      else (Inl (StudylibError (''Failed to load library '' @ quoted libraryName)
                   LIBRARY_NOT_FOUND (Some error)), st))"

definition context_miss ::
  "'x runtime \<Rightarrow> CacheManager \<Rightarrow> 'x world \<Rightarrow> int \<Rightarrow> string \<Rightarrow> string \<Rightarrow> string \<Rightarrow> 'x rstate
     \<Rightarrow> (exn + 'x) \<times> 'x rstate" where
  "context_miss rt fc w now libraryName libraryPath hash st3 =
     (let cacheKey = libraryName @ '':'' @ hash;
          st4 = log_event (Load libraryPath) st3
      in case require w libraryPath of
           Inl error \<Rightarrow> (Inl error, st4)
         | Inr library \<Rightarrow>
             (let hasDefault = checkDefaultExport rt library;
                  exps = (if hasDefault then with_default rt library else library)
              in case getPackageInfo rt fc w now libraryName st4 of
                   (Inl error, st5) \<Rightarrow> (Inl error, st5)
                 | (Inr info, st5) \<Rightarrow>
                     (let cacheEntry =
                            \<lparr>exports = exps, packageInfo = info, lastAccessed = now,
                             hasDefaultExport = hasDefault, fileHash = hash\<rparr>
                      in case CacheManager_set (json_of rt) fc now cacheKey (CLib cacheEntry)
                                (cache_fs st5) of
                           (Inl error, fs6) \<Rightarrow> (Inl error, st5\<lparr>cache_fs := fs6\<rparr>)
                         | (Inr u, fs6) \<Rightarrow>
                             (case setInMemoryCache now libraryName cacheEntry (memoryCache st5) of
                                Inl error \<Rightarrow> (Inl error, st5\<lparr>cache_fs := fs6\<rparr>)
                              | Inr mc' \<Rightarrow>
                                  (Inr exps, st5\<lparr>cache_fs := fs6, memoryCache := mc'\<rparr>)))))"

definition context_body ::
  "'x runtime \<Rightarrow> CacheManager \<Rightarrow> 'x world \<Rightarrow> int \<Rightarrow> string \<Rightarrow> 'x rstate
     \<Rightarrow> (exn + 'x) \<times> 'x rstate" where
  "context_body rt fc w now libraryName st1 =
     (let st2 = log_event (Resolve libraryName) st1
      in case resolve w libraryName of
           Inl error \<Rightarrow> (Inl error, st2)
         | Inr libraryPath \<Rightarrow>
             if disk w libraryPath = None
             then (Inl (StudylibError
                          (''Library '' @ quoted libraryName @ '' not found at path: ''
                             @ libraryPath)
                          LIBRARY_NOT_FOUND None), st2)
             else (let st3 = log_event (Hash libraryPath) st2
                   in case getFileHash rt w libraryPath of
                        Inl error \<Rightarrow> (Inl error, st3)
                      | Inr hash \<Rightarrow>
                          (case CacheManager_get fc now (libraryName @ '':'' @ hash)
                                  (cache_fs st3) of
                             (Inl error, fs') \<Rightarrow> (Inl error, st3\<lparr>cache_fs := fs'\<rparr>)
                           | (Inr (Some fileCached), fs') \<Rightarrow>
                               (case setInMemoryCache now libraryName (as_lib rt fileCached)
                                       (memoryCache st3) of
                                  Inl error \<Rightarrow> (Inl error, st3\<lparr>cache_fs := fs'\<rparr>)
                                | Inr mc' \<Rightarrow>
                                    (Inr (exports (as_lib rt fileCached)),
                                     st3\<lparr>cache_fs := fs', memoryCache := mc'\<rparr>))
                           | (Inr None, fs') \<Rightarrow>
                               context_miss rt fc w now libraryName libraryPath hash
                                 (st3\<lparr>cache_fs := fs'\<rparr>))))"

definition "context" ::
  "'x runtime \<Rightarrow> CacheManager \<Rightarrow> 'x world \<Rightarrow> int \<Rightarrow> string \<Rightarrow> 'x rstate
     \<Rightarrow> (exn + 'x) \<times> 'x rstate" where
  "context rt fc w now libraryName st =
     (case validateLibraryName (paths rt) libraryName of
        Inl error \<Rightarrow> (Inl error, st)
      | Inr u \<Rightarrow>
          (case getFromMemoryCache now libraryName (memoryCache st) of
             (memCached, mc1) \<Rightarrow>
               (let st1 = st\<lparr>memoryCache := mc1\<rparr>
                in if (case memCached of None \<Rightarrow> False | Some c \<Rightarrow> truthy rt (exports c))
                   then (Inr (exports (the memCached)), st1)
                   else catch (context_body rt fc w now libraryName st1)
                          (rethrow_or_not_found libraryName))))"

section \<open>The documentation response cache (AIResponseCache)\<close>

text \<open>
  The template literal prints the number \<^verbatim>\<open>itemsPerPage\<close>. Page sizes are
  integers. A safe integer (\<^verbatim>\<open>Number.isSafeInteger\<close>, magnitude below \<open>2^53\<close>) is
  printed in plain decimal; what the runtime prints for an integer beyond that range
  (rounded digits, exponent notation from \<open>10^21\<close>) is the parameter \<open>big\<close>.
\<close>

definition digit_char :: "nat \<Rightarrow> char" where
  "digit_char d = char_of (48 + d)"

fun digits :: "nat \<Rightarrow> string" where
  "digits n = (if n < 10 then [digit_char n] else digits (n div 10) @ [digit_char (n mod 10)])"

definition is_safe_integer :: "int \<Rightarrow> bool" where
  "is_safe_integer i = (\<bar>i\<bar> \<le> 9007199254740991)"

definition number_to_string :: "(int \<Rightarrow> string) \<Rightarrow> int \<Rightarrow> string" where
  "number_to_string big i =
     (if is_safe_integer i
      then (if i < 0 then CHR ''-'' # digits (nat (- i)) else digits (nat i))
      else big i)"

text \<open>
  The text that is hashed (the local \<^verbatim>\<open>data\<close> of \<^verbatim>\<open>generateCacheKey\<close>) and the
  key; \<open>sha256\<close> is the digest in hexadecimal.
\<close>

definition cache_key_data :: "(int \<Rightarrow> string) \<Rightarrow> string \<Rightarrow> string \<Rightarrow> string \<Rightarrow> int \<Rightarrow> string" where
  "cache_key_data big libraryName libraryVersion aiTool itemsPerPage =
     libraryName @ '':'' @ libraryVersion @ '':'' @ aiTool @ '':''
       @ number_to_string big itemsPerPage"

definition generateCacheKey ::
  "(string \<Rightarrow> string) \<Rightarrow> (int \<Rightarrow> string) \<Rightarrow> string \<Rightarrow> string \<Rightarrow> string \<Rightarrow> int \<Rightarrow> string" where
  "generateCacheKey sha256 big libraryName libraryVersion aiTool itemsPerPage =
     sha256 (cache_key_data big libraryName libraryVersion aiTool itemsPerPage)"

text \<open>
  The two constructors that ask for a store. Each passes its own options to
  \<^verbatim>\<open>CacheManager.getInstance\<close>.
\<close>

definition RequireLibraryContext_constructor ::
  "string \<Rightarrow> CacheManager option \<times> 'v fs \<Rightarrow> (exn + CacheManager) \<times> CacheManager option \<times> 'v fs" where
  "RequireLibraryContext_constructor home s = getInstance home (Some (library_cache_options home)) s"

definition AIResponseCache_constructor ::
  "string \<Rightarrow> CacheManager option \<times> 'v fs \<Rightarrow> (exn + CacheManager) \<times> CacheManager option \<times> 'v fs" where
  "AIResponseCache_constructor home s = getInstance home (Some (ai_cache_options home)) s"

section \<open>Example data\<close>

text \<open>An empty writable file system.\<close>

definition empty_fs :: "'v fs" where
  "empty_fs =
     \<lparr>files = [], dirs = [], dir_stat = (\<lambda>p. \<lparr>st_size = 4096, st_atime = 0\<rparr>),
      unlistable = [], read_only = False\<rparr>"

text \<open>A serialiser for values that JSON represents exactly, at ten bytes a file.\<close>

definition plain_json :: "'v json" where
  "plain_json = \<lparr>j_value = Some, j_size = (\<lambda>ts v. 10)\<rparr>"

text \<open>
  The store the constructor builds from \<^verbatim>\<open>{ ttl: 0 }\<close> for the home directory
  \<^verbatim>\<open>/home/u\<close>, and the file system once its directory exists.
\<close>

definition default_store :: CacheManager where
  "default_store = \<lparr>cacheDir = ''/home/u/.studylib/cache'', ttl = 86400000, maxSize = 104857600\<rparr>"

definition default_fs :: "nat fs" where
  "default_fs =
     \<lparr>files = [],
      dirs = [''/home'', ''/home/u'', ''/home/u/.studylib'', ''/home/u/.studylib/cache''],
      dir_stat = (\<lambda>p. \<lparr>st_size = 4096, st_atime = 0\<rparr>),
      unlistable = [], read_only = False\<rparr>"

text \<open>
  A store over \<^verbatim>\<open>/c\<close> on a read-only medium, holding the entry of the key \<^verbatim>\<open>foo\<close>
  in a file that can be neither read nor removed.
\<close>

definition small_store :: CacheManager where
  "small_store = \<lparr>cacheDir = ''/c'', ttl = 1000, maxSize = 100\<rparr>"


text \<open>
  A store limited to 1000 bytes whose directory holds forty files of 25 bytes, and the
  directory of \<open>small_store\<close> (limit 100 bytes) holding three files of 60, 50 and 40
  bytes, last read at times 3, 1 and 2.
\<close>

definition kb_store :: CacheManager where
  "kb_store = \<lparr>cacheDir = ''/c'', ttl = 1000, maxSize = 1000\<rparr>"

definition plain_file :: "nat \<Rightarrow> int \<Rightarrow> nat fnode" where
  "plain_file n t =
     \<lparr>f_content = Parsed 0 0, f_size = n, f_atime = t, f_read_ok = True, f_unlink_ok = True,
      f_stat_ok = True\<rparr>"

definition full_fs :: "nat fs" where
  "full_fs =
     \<lparr>files = map (\<lambda>i. (''/c/f'' @ digits i, plain_file 25 (int i))) [0..<40],
      dirs = [''/c''], dir_stat = (\<lambda>p. \<lparr>st_size = 4096, st_atime = 0\<rparr>),
      unlistable = [], read_only = False\<rparr>"

definition over_fs :: "nat fs" where
  "over_fs =
     \<lparr>files = [(''/c/a'', plain_file 60 3), (''/c/b'', plain_file 50 1),
               (''/c/c'', plain_file 40 2)],
      dirs = [''/c''], dir_stat = (\<lambda>p. \<lparr>st_size = 4096, st_atime = 0\<rparr>),
      unlistable = [], read_only = False\<rparr>"



text \<open>
  A runtime whose module values are strings, with the identity as a stand-in digest
  (distinct contents have distinct digests), and a world with one library \<^verbatim>\<open>lib\<close>
  whose entry point \<^verbatim>\<open>/m/lib.js\<close> holds the given bytes and has no package
  descriptor. A resolver that has not been used yet.
\<close>

definition toy_runtime :: "string runtime" where
  "toy_runtime =
     \<lparr>truthy = (\<lambda>x. x \<noteq> []), is_function = (\<lambda>x. False),
      is_esModule_with_default = (\<lambda>x. False), with_default = (\<lambda>x. x),
      sha256_hex = (\<lambda>bytes. bytes),
      lib_of_pkg = (\<lambda>p. \<lparr>exports = [], packageInfo = None, lastAccessed = 0,
                         hasDefaultExport = False, fileHash = []\<rparr>),
      pkg_of_lib = (\<lambda>c. \<lparr>pkg_name = None, pkg_version = None, pkg_types = None,
                         pkg_dependencies = [], pkg_devDependencies = [],
                         pkg_peerDependencies = []\<rparr>),
      paths = posix_path, json_of = plain_json\<rparr>"

definition toy_world :: "string \<Rightarrow> string world" where
  "toy_world bytes =
     \<lparr>resolve = (\<lambda>n. if n = ''lib'' then Inr ''/m/lib.js''
                     else Inl (SysError ''MODULE_NOT_FOUND'')),
      disk = (\<lambda>p. if p = ''/m/lib.js'' then Some bytes else None),
      require = (\<lambda>p. if p = ''/m/lib.js'' then Inr (''exports of '' @ bytes)
                     else Inl (SysError ''MODULE_NOT_FOUND'')),
      require_json = (\<lambda>p. Inl (SysError ''MODULE_NOT_FOUND''))\<rparr>"

definition fresh_state :: "string rstate" where
  "fresh_state =
     \<lparr>memoryCache = [],
      cache_fs = \<lparr>files = [], dirs = [''/c''],
                  dir_stat = (\<lambda>p. \<lparr>st_size = 4096, st_atime = 0\<rparr>),
                  unlistable = [], read_only = False\<rparr>,
      trace = []\<rparr>"

text \<open>
  Inserting a sequence of entries into the in-memory tier, one \<^verbatim>\<open>setInMemoryCache\<close>
  after the other; the entry the resolver stores for the \<open>i\<close>-th of a family of
  libraries \<^verbatim>\<open>lib0\<close>, \<^verbatim>\<open>lib1\<close>, ...
\<close>

fun insert_all :: "int \<Rightarrow> (string \<times> 'x LibraryCache) list \<Rightarrow> 'x memory_cache \<Rightarrow> exn + 'x memory_cache" where
  "insert_all now [] mc = Inr mc"
| "insert_all now (e # rest) mc =
     (case setInMemoryCache now (fst e) (snd e) mc of
        Inl error \<Rightarrow> Inl error
      | Inr mc' \<Rightarrow> insert_all now rest mc')"

definition numbered_entry :: "nat \<Rightarrow> string \<times> string LibraryCache" where
  "numbered_entry i =
     (''lib'' @ digits i,
      \<lparr>exports = ''exports'', packageInfo = None, lastAccessed = int i,
       hasDefaultExport = False, fileHash = []\<rparr>)"

section \<open>Properties\<close>

declare digits.simps [simp del]


subsection \<open>Configuration and instances\<close>

lemma constructor_result:
  "constructor home options fs =
     (let cm = \<lparr>cacheDir = or_string (Option.bind options o_cacheDir)
                              (path_join (path_join home ''.studylib'') ''cache''),
                ttl = or_number (Option.bind options o_ttl) (24 * 60 * 60 * 1000),
                maxSize = or_number (Option.bind options o_maxSize) (100 * 1024 * 1024)\<rparr>
      in if existsSync fs (cacheDir cm) then (Inr cm, fs)
         else (case mkdirSync (cacheDir cm) fs of
                 (Inl error, fs') \<Rightarrow>
                   (Inl (StudylibError ''Failed to initialize cache directory'' CONFIG_ERROR
                           (Some error)), fs')
               | (Inr u, fs') \<Rightarrow> (Inr cm, fs')))"
  by (auto simp: constructor_def initializeCache_def Let_def split: prod.splits sum.splits)

lemma constructor_store:
  assumes "fst (constructor home (Some opts) fs) = Inr cm"
  shows "cm = \<lparr>cacheDir = or_string (o_cacheDir opts)
                              (path_join (path_join home ''.studylib'') ''cache''),
               ttl = or_number (o_ttl opts) (24 * 60 * 60 * 1000),
               maxSize = or_number (o_maxSize opts) (100 * 1024 * 1024)\<rparr>"
  using assms
  by (auto simp: constructor_result Let_def split: if_splits prod.splits sum.splits)

lemma mkdirSync_ok:
  assumes "\<not> read_only fs" "filter (\<lambda>q. map_of (files fs) q \<noteq> None) (ancestors d) = []"
    "\<not> existsSync fs d"
  shows "fst (mkdirSync d fs) = Inr ()"
  using assms by (simp add: mkdirSync_def existsSync_def)

text \<open>
  C10. The constructor replaces falsy option values by the defaults: a \<^verbatim>\<open>ttl\<close> of 0
  gives 24 hours, a \<^verbatim>\<open>maxSize\<close> of 0 gives 100MB, an empty \<^verbatim>\<open>cacheDir\<close> gives the
  path under the home directory; no store has a zero TTL, a zero size limit or an empty
  directory. The constructor returns whenever the medium is writable and no regular
  file stands at a path above the directory.
\<close>

theorem constructor_falsy_defaults:
  "(\<forall>cm. fst (constructor home (Some opts) fs) = Inr cm \<longrightarrow>
      ttl cm \<noteq> 0 \<and> maxSize cm \<noteq> 0 \<and> cacheDir cm \<noteq> [] \<and>
      (o_ttl opts = Some 0 \<longrightarrow> ttl cm = 24 * 60 * 60 * 1000) \<and>
      (o_maxSize opts = Some 0 \<longrightarrow> maxSize cm = 100 * 1024 * 1024) \<and>
      (o_cacheDir opts = Some [] \<longrightarrow>
         cacheDir cm = path_join (path_join home ''.studylib'') ''cache'')) \<and>
   (\<not> read_only fs \<and>
    filter (\<lambda>q. map_of (files fs) q \<noteq> None)
      (ancestors (or_string (o_cacheDir opts) (path_join (path_join home ''.studylib'') ''cache'')))
      = [] \<longrightarrow>
    (\<exists>cm. fst (constructor home (Some opts) fs) = Inr cm))"
proof (intro conjI allI impI)
  fix cm
  assume "fst (constructor home (Some opts) fs) = Inr cm"
  then have cm: "cm = \<lparr>cacheDir = or_string (o_cacheDir opts)
                              (path_join (path_join home ''.studylib'') ''cache''),
                ttl = or_number (o_ttl opts) (24 * 60 * 60 * 1000),
                maxSize = or_number (o_maxSize opts) (100 * 1024 * 1024)\<rparr>"
    by (rule constructor_store)
  show "ttl cm \<noteq> 0" "maxSize cm \<noteq> 0" "cacheDir cm \<noteq> []"
    by (auto simp: cm or_number_def or_string_def path_join_def split: option.splits)
  show "ttl cm = 24 * 60 * 60 * 1000" if "o_ttl opts = Some 0"
    using that by (simp add: cm or_number_def)
  show "maxSize cm = 100 * 1024 * 1024" if "o_maxSize opts = Some 0"
    using that by (simp add: cm or_number_def)
  show "cacheDir cm = path_join (path_join home ''.studylib'') ''cache''"
    if "o_cacheDir opts = Some []"
    using that by (simp add: cm or_string_def)
next
  let ?d = "or_string (o_cacheDir opts) (path_join (path_join home ''.studylib'') ''cache'')"
  assume a: "\<not> read_only fs \<and> filter (\<lambda>q. map_of (files fs) q \<noteq> None) (ancestors ?d) = []"
  show "\<exists>cm. fst (constructor home (Some opts) fs) = Inr cm"
  proof (cases "existsSync fs ?d")
    case True
    then show ?thesis by (simp add: constructor_result Let_def)
  next
    case False
    have "fst (mkdirSync ?d fs) = Inr ()" using a False by (intro mkdirSync_ok) auto
    then show ?thesis
      using False by (auto simp: constructor_result Let_def split: prod.splits sum.splits)
  qed
qed

theorem constructor_falsy_defaults_witness:
  "\<exists>cm. fst (constructor ''/home/u''
             (Some \<lparr>o_cacheDir = Some [], o_ttl = Some 0, o_maxSize = Some 0\<rparr>)
             (empty_fs :: unit fs)) = Inr cm \<and>
        ttl cm = 86400000 \<and> maxSize cm = 104857600 \<and>
        cacheDir cm = ''/home/u/.studylib/cache''"
  using constructor_falsy_defaults [of "''/home/u''"
      "\<lparr>o_cacheDir = Some [], o_ttl = Some 0, o_maxSize = Some 0\<rparr>" "empty_fs :: unit fs"]
  by (auto simp: empty_fs_def path_join_def)

text \<open>
  C1. The store is one process-wide instance, and \<^verbatim>\<open>getInstance\<close> reads its options
  only on the first call. When the resolver is constructed first (as the field
  initialisers of \<^verbatim>\<open>StudyLibContext\<close> do), the documentation cache, which asks for
  30 days, 500MB and the directory \<^verbatim>\<open>ai-cache\<close>, is handed the resolver's store:
  7 days, the default 100MB and the directory \<^verbatim>\<open>library-cache\<close>. In the other order
  the resolver is handed the documentation cache's store.
\<close>

theorem singleton_store_ignores_later_options:
  "fst (AIResponseCache_constructor ''/home/u''
          (snd (RequireLibraryContext_constructor ''/home/u'' (None, (empty_fs :: unit fs)))))
     = Inr \<lparr>cacheDir = ''/home/u/.studylib/library-cache'', ttl = 604800000,
             maxSize = 104857600\<rparr>
   \<and> fst (RequireLibraryContext_constructor ''/home/u''
          (snd (AIResponseCache_constructor ''/home/u'' (None, (empty_fs :: unit fs)))))
     = Inr \<lparr>cacheDir = ''/home/u/.studylib/ai-cache'', ttl = 2592000000,
             maxSize = 524288000\<rparr>"
  by code_simp

subsection \<open>File names\<close>

lemma base64_safe_examples:
  "base64 ''>>>'' = ''Pj4+''" "base64 ''>>?'' = ''Pj4/''"
  by (simp_all add: base64_def b64_char_def b64_alphabet_def)

text \<open>
  C4. The file name is a function of the key alone, but it is not injective: the
  characters \<open>+\<close>, \<open>/\<close> and \<open>=\<close> of the base64 text are all replaced by \<open>_\<close>, so the
  keys \<open>>>>\<close> (base64 \<open>Pj4+\<close>) and \<open>>>?\<close> (base64 \<open>Pj4/\<close>) share the file
  \<open>Pj4_.json\<close> in every store, and a \<^verbatim>\<open>get\<close> of the second key returns the value
  that was set under the first.
\<close>

theorem getCacheFilePath_collision:
  "getCacheFilePath cm ''>>>'' = getCacheFilePath cm ''>>?'' \<and> ''>>>'' \<noteq> ''>>?'' \<and>
   fst (CacheManager_get default_store 1000 ''>>?''
          (snd (CacheManager_set plain_json default_store 1000 ''>>>'' 42 default_fs)))
     = Inr (Some 42)"
proof -
  have "fst (CacheManager_get default_store 1000 ''>>?''
          (snd (CacheManager_set plain_json default_store 1000 ''>>>'' 42 default_fs)))
     = Inr (Some 42)"
    by code_simp
  then show ?thesis
    by (simp add: getCacheFilePath_def safeKey_def base64_safe_examples)
qed

subsection \<open>The store: failures, expiry\<close>


lemma catch_swallow_unit: "fst (catch r (\<lambda>error s. (Inr (), s))) = Inr ()"
  by (auto simp: catch_def split: prod.splits sum.splits)








lemma clear_error_shape:
  "fst (CacheManager_clear cm fs) = Inl e \<Longrightarrow>
     \<exists>cause. e = StudylibError ''Failed to clear cache'' CONFIG_ERROR (Some cause)"
  by (auto simp: CacheManager_clear_def catch_def split: prod.splits sum.splits)






lemma basename_path_join:
  assumes "CHR ''/'' \<notin> set n"
  shows "basename (path_join d n) = n"
proof -
  have "takeWhile (\<lambda>c. c \<noteq> CHR ''/'') (rev n @ CHR ''/'' # rev d)
          = rev n @ takeWhile (\<lambda>c. c \<noteq> CHR ''/'') (CHR ''/'' # rev d)"
    using assms by (intro takeWhile_append2) auto
  then show ?thesis by (simp add: basename_def path_join_def)
qed







lemma ensureCacheSpace_returns: "fst (ensureCacheSpace cm fs) = Inr ()"
  by (auto simp: ensureCacheSpace_def Let_def catch_swallow_unit)























subsection \<open>Name validation\<close>

lemma segments_nonempty: "segments p \<noteq> []"
  by (induction p) (auto split: list.splits)

lemma segments_infix:
  "seg \<in> set (segments p) \<Longrightarrow> \<exists>a b. p = a @ seg @ b"
proof (induction p arbitrary: seg)
  case Nil
  then show ?case by simp
next
  case (Cons c cs)
  show ?case
  proof (cases "is_sep c")
    case True
    with Cons.prems have "seg = [] \<or> seg \<in> set (segments cs)" by auto
    then show ?thesis
    proof
      assume "seg = []"
      then have "c # cs = [] @ seg @ (c # cs)" by simp
      then show ?thesis by blast
    next
      assume "seg \<in> set (segments cs)"
      then obtain a b where "cs = a @ seg @ b" using Cons.IH by blast
      then have "c # cs = (c # a) @ seg @ b" by simp
      then show ?thesis by blast
    qed
  next
    case False
    obtain s ss where s: "segments cs = s # ss"
      using segments_nonempty[of cs] by (cases "segments cs") auto
    with False Cons.prems have "seg = c # s \<or> seg \<in> set ss" by auto
    then show ?thesis
    proof
      assume e: "seg = c # s"
      have "s \<in> set (segments cs)" using s by simp
      moreover have "\<exists>b. cs = s @ b" using s
      proof (induction cs arbitrary: s ss)
        case Nil
        then show ?case by simp
      next
        case (Cons d ds)
        then show ?case by (auto split: if_splits list.splits)
      qed
      then obtain b where "cs = s @ b" by blast
      then have "c # cs = [] @ seg @ b" using e by simp
      then show ?thesis by blast
    next
      assume "seg \<in> set ss"
      then have "seg \<in> set (segments cs)" using s by simp
      then obtain a b where "cs = a @ seg @ b" using Cons.IH by blast
      then have "c # cs = (c # a) @ seg @ b" by simp
      then show ?thesis by blast
    qed
  qed
qed

lemma string_includes_prefix: "prefix sub p \<Longrightarrow> string_includes p sub"
  by (cases p) auto

lemma string_includes_infix: "p = a @ sub @ b \<Longrightarrow> string_includes p sub"
proof (induction a arbitrary: p)
  case Nil
  then show ?case by (simp add: string_includes_prefix)
next
  case (Cons x a)
  then show ?case by auto
qed

lemma traversal_segment_included:
  "''..'' \<in> set (segments p) \<Longrightarrow> string_includes p ''..''"
  using segments_infix string_includes_infix by blast

lemma validateLibraryName_rejects:
  assumes "libraryName = [] \<or> ''..'' \<in> set (segments (normalize P libraryName))
             \<or> isAbsolute P (normalize P libraryName)"
  shows "\<exists>m. validateLibraryName P libraryName = Inl (StudylibError m VALIDATION_ERROR None)"
  using assms traversal_segment_included[of "normalize P libraryName"]
  by (auto simp: validateLibraryName_def Let_def)

text \<open>
  C8. A library name that is empty, or whose normalised form has a \<open>..\<close> segment or
  is absolute, is rejected by \<^verbatim>\<open>context\<close> and by \<^verbatim>\<open>getPackageInfo\<close> with a
  \<open>VALIDATION_ERROR\<close>, and the resolver's state, its trace of resolutions included,
  is left as it was: nothing has been resolved, hashed or loaded.
\<close>

theorem traversal_names_rejected:
  assumes "libraryName = [] \<or> ''..'' \<in> set (segments (normalize (paths rt) libraryName))
             \<or> isAbsolute (paths rt) (normalize (paths rt) libraryName)"
  shows "(\<exists>m. context rt fc w now libraryName st = (Inl (StudylibError m VALIDATION_ERROR None), st)) \<and>
         (\<exists>m. getPackageInfo rt fc w now libraryName st
                 = (Inl (StudylibError m VALIDATION_ERROR None), st))"
  using validateLibraryName_rejects[OF assms]
  by (auto simp: context_def getPackageInfo_def)

lemma normalize_etc: "posix_normalize ''../etc'' = ''../etc''"
  by (simp add: posix_normalize_def posix_isAbsolute_def normalize_step_def Let_def)

lemma segs_etc: "segments ''../etc'' = [''..'', ''etc'']"
  by (simp add: is_sep_def)



theorem traversal_names_rejected_witness:
  "(\<exists>m. context toy_runtime small_store (toy_world ''v1'') 0 ''../etc'' fresh_state
          = (Inl (StudylibError m VALIDATION_ERROR None), fresh_state)) \<and>
   (\<exists>m. getPackageInfo toy_runtime small_store (toy_world ''v1'') 0 ''../etc'' fresh_state
          = (Inl (StudylibError m VALIDATION_ERROR None), fresh_state))"
proof -
  have "''..'' \<in> set (segments (normalize (paths toy_runtime) ''../etc''))"
    by (simp add: toy_runtime_def posix_path_def normalize_etc is_sep_def)
  then have "''../etc'' = [] \<or> ''..'' \<in> set (segments (normalize (paths toy_runtime) ''../etc''))
             \<or> isAbsolute (paths toy_runtime) (normalize (paths toy_runtime) ''../etc'')"
    by blast
  then show ?thesis by (rule traversal_names_rejected)
qed

subsection \<open>Documentation cache keys\<close>

lemma digits_nonempty: "digits n \<noteq> []"
  by (subst digits.simps) simp

lemma digit_char_inj: "a < 10 \<Longrightarrow> b < 10 \<Longrightarrow> digit_char a = digit_char b \<Longrightarrow> a = b"
proof -
  assume a: "a < 10" "b < 10" "digit_char a = digit_char b"
  then have "(of_char (digit_char a) :: nat) = of_char (digit_char b)" by simp
  then show ?thesis using a(1,2) by (simp add: digit_char_def)
qed

lemma digits_inj: "digits n = digits m \<Longrightarrow> n = m"
proof (induction n arbitrary: m rule: digits.induct)
  case (1 n)
  show ?case
  proof (cases "n < 10")
    case True
    then have n: "digits n = [digit_char n]" by (subst digits.simps) simp
    have "m < 10"
    proof (rule ccontr)
      assume "\<not> m < 10"
      then have "digits m = digits (m div 10) @ [digit_char (m mod 10)]"
        by (subst digits.simps) simp
      with n "1.prems" digits_nonempty[of "m div 10"] show False by simp
    qed
    then have "digits m = [digit_char m]" by (subst digits.simps) simp
    with n "1.prems" True \<open>m < 10\<close> show ?thesis by (simp add: digit_char_inj)
  next
    case False
    then have n: "digits n = digits (n div 10) @ [digit_char (n mod 10)]"
      by (subst digits.simps) simp
    have "\<not> m < 10"
    proof
      assume "m < 10"
      then have "digits m = [digit_char m]" by (subst digits.simps) simp
      with n "1.prems" digits_nonempty[of "n div 10"] show False by simp
    qed
    then have m: "digits m = digits (m div 10) @ [digit_char (m mod 10)]"
      by (subst digits.simps) simp
    from n m "1.prems" have e: "digits (n div 10) = digits (m div 10)"
      "digit_char (n mod 10) = digit_char (m mod 10)" by simp_all
    have "n div 10 = m div 10" using "1.IH"[OF False e(1)] .
    moreover have "n mod 10 = m mod 10" using e(2) by (intro digit_char_inj) simp_all
    ultimately show ?thesis by (metis div_mult_mod_eq)
  qed
qed

lemma digits_chars: "c \<in> set (digits n) \<Longrightarrow> c \<noteq> CHR ''-''"
proof (induction n rule: digits.induct)
  case (1 n)
  have d: "digit_char k \<noteq> CHR ''-''" if "k < 10" for k
  proof
    assume "digit_char k = CHR ''-''"
    then have "(of_char (digit_char k) :: nat) = of_char CHR ''-''" by simp
    then show False using that by (simp add: digit_char_def)
  qed
  show ?case
  proof (cases "n < 10")
    case True
    then have "digits n = [digit_char n]" by (subst digits.simps) simp
    with "1.prems" d[OF True] show ?thesis by simp
  next
    case False
    then have "digits n = digits (n div 10) @ [digit_char (n mod 10)]"
      by (subst digits.simps) simp
    with "1.prems" "1.IH"[OF False] d[of "n mod 10"] show ?thesis by auto
  qed
qed

lemma number_to_string_inj:
  assumes "is_safe_integer i" "is_safe_integer j"
    and "number_to_string big i = number_to_string big j"
  shows "i = j"
proof -
  have e: "(if i < 0 then CHR ''-'' # digits (nat (- i)) else digits (nat i))
         = (if j < 0 then CHR ''-'' # digits (nat (- j)) else digits (nat j))"
    using assms by (simp add: number_to_string_def)
  have h: "hd (digits n) \<noteq> CHR ''-''" for n
    using digits_chars[of "hd (digits n)" n] digits_nonempty[of n] by auto
  consider "i < 0" "j < 0" | "i < 0" "\<not> j < 0" | "\<not> i < 0" "j < 0" | "\<not> i < 0" "\<not> j < 0"
    by blast
  then show ?thesis
  proof cases
    case 1
    with e have "digits (nat (- i)) = digits (nat (- j))" by simp
    then have "nat (- i) = nat (- j)" by (rule digits_inj)
    with 1 show ?thesis by simp
  next
    case 2
    with e have "CHR ''-'' # digits (nat (- i)) = digits (nat j)" by simp
    then have "hd (digits (nat j)) = CHR ''-''" by (metis list.sel(1))
    with h show ?thesis by simp
  next
    case 3
    with e have "digits (nat i) = CHR ''-'' # digits (nat (- j))" by simp
    then have "hd (digits (nat i)) = CHR ''-''" by simp
    with h show ?thesis by simp
  next
    case 4
    with e have "digits (nat i) = digits (nat j)" by simp
    then have "nat i = nat j" by (rule digits_inj)
    with 4 show ?thesis by simp
  qed
qed

lemma cache_key_data_components:
  "a \<noteq> a' \<Longrightarrow> cache_key_data big a b c d \<noteq> cache_key_data big a' b c d"
  "b \<noteq> b' \<Longrightarrow> cache_key_data big a b c d \<noteq> cache_key_data big a b' c d"
  "c \<noteq> c' \<Longrightarrow> cache_key_data big a b c d \<noteq> cache_key_data big a b c' d"
  "d \<noteq> d' \<Longrightarrow> is_safe_integer d \<Longrightarrow> is_safe_integer d' \<Longrightarrow>
     cache_key_data big a b c d \<noteq> cache_key_data big a b c d'"
  using number_to_string_inj[of d d' big] by (auto simp: cache_key_data_def)

text \<open>
  C9, as amended. The key is the digest of the text
  \<open>libraryName:libraryVersion:aiTool:itemsPerPage\<close>, a function of the four arguments.
  That text changes whenever one of the four components is changed (for
  \<^verbatim>\<open>itemsPerPage\<close>, among safe integers), so two keys that differ in one component
  are equal only when the digest takes the same value on two different texts.
\<close>

theorem generateCacheKey_components:
  "generateCacheKey sha256 big a b c d = sha256 (cache_key_data big a b c d) \<and>
   (a \<noteq> a' \<longrightarrow> cache_key_data big a b c d \<noteq> cache_key_data big a' b c d) \<and>
   (b \<noteq> b' \<longrightarrow> cache_key_data big a b c d \<noteq> cache_key_data big a b' c d) \<and>
   (c \<noteq> c' \<longrightarrow> cache_key_data big a b c d \<noteq> cache_key_data big a b c' d) \<and>
   (d \<noteq> d' \<and> is_safe_integer d \<and> is_safe_integer d' \<longrightarrow>
      cache_key_data big a b c d \<noteq> cache_key_data big a b c d') \<and>
   (a \<noteq> a' \<and> generateCacheKey sha256 big a b c d = generateCacheKey sha256 big a' b c d \<longrightarrow>
      (\<exists>x y. x \<noteq> y \<and> sha256 x = sha256 y)) \<and>
   (b \<noteq> b' \<and> generateCacheKey sha256 big a b c d = generateCacheKey sha256 big a b' c d \<longrightarrow>
      (\<exists>x y. x \<noteq> y \<and> sha256 x = sha256 y)) \<and>
   (c \<noteq> c' \<and> generateCacheKey sha256 big a b c d = generateCacheKey sha256 big a b c' d \<longrightarrow>
      (\<exists>x y. x \<noteq> y \<and> sha256 x = sha256 y)) \<and>
   (d \<noteq> d' \<and> is_safe_integer d \<and> is_safe_integer d' \<and>
    generateCacheKey sha256 big a b c d = generateCacheKey sha256 big a b c d' \<longrightarrow>
      (\<exists>x y. x \<noteq> y \<and> sha256 x = sha256 y))"
proof (intro conjI impI)
  show "generateCacheKey sha256 big a b c d = sha256 (cache_key_data big a b c d)"
    by (simp add: generateCacheKey_def)
  show "cache_key_data big a b c d \<noteq> cache_key_data big a' b c d" if "a \<noteq> a'"
    using that by (rule cache_key_data_components(1))
  show "cache_key_data big a b c d \<noteq> cache_key_data big a b' c d" if "b \<noteq> b'"
    using that by (rule cache_key_data_components(2))
  show "cache_key_data big a b c d \<noteq> cache_key_data big a b c' d" if "c \<noteq> c'"
    using that by (rule cache_key_data_components(3))
  show "cache_key_data big a b c d \<noteq> cache_key_data big a b c d'"
    if "d \<noteq> d' \<and> is_safe_integer d \<and> is_safe_integer d'"
    using that by (intro cache_key_data_components(4)) simp_all
  show "\<exists>x y. x \<noteq> y \<and> sha256 x = sha256 y"
    if "a \<noteq> a' \<and> generateCacheKey sha256 big a b c d = generateCacheKey sha256 big a' b c d"
    using that cache_key_data_components(1)[of a a' big b c d]
    unfolding generateCacheKey_def by blast
  show "\<exists>x y. x \<noteq> y \<and> sha256 x = sha256 y"
    if "b \<noteq> b' \<and> generateCacheKey sha256 big a b c d = generateCacheKey sha256 big a b' c d"
    using that cache_key_data_components(2)[of b b' big a c d]
    unfolding generateCacheKey_def by blast
  show "\<exists>x y. x \<noteq> y \<and> sha256 x = sha256 y"
    if "c \<noteq> c' \<and> generateCacheKey sha256 big a b c d = generateCacheKey sha256 big a b c' d"
    using that cache_key_data_components(3)[of c c' big a b d]
    unfolding generateCacheKey_def by blast
  show "\<exists>x y. x \<noteq> y \<and> sha256 x = sha256 y"
    if "d \<noteq> d' \<and> is_safe_integer d \<and> is_safe_integer d' \<and>
        generateCacheKey sha256 big a b c d = generateCacheKey sha256 big a b c d'"
    using that cache_key_data_components(4)[of d d' big a b c]
    unfolding generateCacheKey_def by blast
qed

theorem generateCacheKey_components_witness:
  "cache_key_data (\<lambda>i. ''1e+21'') ''lodash'' ''4.17.21'' ''openai'' 10
     \<noteq> cache_key_data (\<lambda>i. ''1e+21'') ''lodash'' ''4.17.21'' ''openai'' 20 \<and>
   cache_key_data (\<lambda>i. ''1e+21'') ''lodash'' ''4.17.21'' ''openai'' 10
     \<noteq> cache_key_data (\<lambda>i. ''1e+21'') ''lodash'' ''4.17.21'' ''gemini'' 10 \<and>
   cache_key_data (\<lambda>i. ''1e+21'') ''lodash'' ''4.17.21'' ''openai'' 10
     = ''lodash:4.17.21:openai:10''"
proof -
  have s: "is_safe_integer 10" "is_safe_integer 20" by (simp_all add: is_safe_integer_def)
  have v: "cache_key_data (\<lambda>i. ''1e+21'') ''lodash'' ''4.17.21'' ''openai'' 10
     = ''lodash:4.17.21:openai:10''"
    by code_simp
  show ?thesis
    using generateCacheKey_components[of "\<lambda>s. s" "\<lambda>i. ''1e+21''" "''lodash''" "''4.17.21''"
        "''openai''" 10 "''lodash''" "''4.17.21''" "''gemini''" 20] s v
    by simp
qed

text \<open>
  The claim C9 as stated fails for every digest of fixed length, and the hexadecimal
  SHA-256 digest has 64 characters: there are more library names than digests, so two
  names share a key while version, tool and page size stay the same.
\<close>

theorem fixed_length_digest_collides:
  "\<not> (\<exists>sha256 big. (\<forall>s. length (sha256 s) = 64) \<and>
         (\<forall>a a'. a \<noteq> a' \<longrightarrow>
            generateCacheKey sha256 big a ''4.17.21'' ''openai'' 10
              \<noteq> generateCacheKey sha256 big a' ''4.17.21'' ''openai'' 10))"
proof
  assume "\<exists>sha256 big. (\<forall>s. length (sha256 s) = 64) \<and>
         (\<forall>a a'. a \<noteq> a' \<longrightarrow>
            generateCacheKey sha256 big a ''4.17.21'' ''openai'' 10
              \<noteq> generateCacheKey sha256 big a' ''4.17.21'' ''openai'' 10)"
  then obtain sha256 :: "string \<Rightarrow> string" and big :: "int \<Rightarrow> string"
    where len: "\<forall>s. length (sha256 s) = 64"
      and dif: "\<forall>a a'. a \<noteq> a' \<longrightarrow>
            generateCacheKey sha256 big a ''4.17.21'' ''openai'' 10
              \<noteq> generateCacheKey sha256 big a' ''4.17.21'' ''openai'' 10"
    by blast
  let ?f = "\<lambda>a. generateCacheKey sha256 big a ''4.17.21'' ''openai'' 10"
  have "inj ?f" using dif by (auto simp: inj_def)
  moreover have "range ?f \<subseteq> {xs. set xs \<subseteq> (UNIV :: char set) \<and> length xs = 64}"
    using len by (auto simp: generateCacheKey_def)
  then have "finite (range ?f)"
    using finite_lists_length_eq[of "UNIV :: char set" 64] by (simp add: finite_subset)
  ultimately have "finite (UNIV :: string set)" by (rule finite_imageD[rotated])
  then show False using infinite_UNIV_listI by blast
qed

subsection \<open>The in-memory tier\<close>

lemma map_set_fresh: "k \<notin> fst ` set m \<Longrightarrow> map_set k v m = m @ [(k, v)]"
  by (induction m) auto

lemma map_of_map_set: "map_of (map_set k v m) k = Some v"
  by (induction m) auto

lemma cleanMemoryCache_noop:
  assumes "length mc \<le> maxMemoryCacheSize"
    "\<forall>e\<in>set mc. now - lastAccessed (snd e) \<le> memoryCacheTimeout"
  shows "cleanMemoryCache now mc = Inr mc"
proof -
  have "filter (\<lambda>e. \<not> (now - lastAccessed (snd e) > memoryCacheTimeout)) mc = mc"
    using assms(2) by (intro filter_True) auto
  then show ?thesis using assms(1) by (simp add: cleanMemoryCache_def Let_def)
qed

lemma setInMemoryCache_appends:
  assumes "length mc \<le> maxMemoryCacheSize"
    "\<forall>e\<in>set mc. now - lastAccessed (snd e) \<le> memoryCacheTimeout"
    "name \<notin> fst ` set mc"
  shows "setInMemoryCache now name c mc = Inr (mc @ [(name, c)])"
  by (simp add: setInMemoryCache_def cleanMemoryCache_noop[OF assms(1,2)] map_set_fresh[OF assms(3)])

lemma insert_all_appends:
  assumes "distinct (map fst (mc @ es))" "length (mc @ es) \<le> Suc maxMemoryCacheSize"
    "\<forall>e\<in>set (mc @ es). now - lastAccessed (snd e) \<le> memoryCacheTimeout"
  shows "insert_all now es mc = Inr (mc @ es)"
  using assms
proof (induction es arbitrary: mc)
  case Nil
  then show ?case by simp
next
  case (Cons e es)
  have s: "setInMemoryCache now (fst e) (snd e) mc = Inr (mc @ [e])"
    using Cons.prems setInMemoryCache_appends[of mc now "fst e" "snd e"] by auto
  have "insert_all now es (mc @ [e]) = Inr ((mc @ [e]) @ es)"
    using Cons.prems by (intro Cons.IH) auto
  then show ?case by (simp add: s)
qed

text \<open>
  C6. \<^verbatim>\<open>setInMemoryCache\<close> cleans before it inserts, so the tier is cut down to 50
  entries and then grows by one: after 51 distinct unexpired entries have been inserted
  into the empty tier, all 51 are present, one more than \<^verbatim>\<open>maxMemoryCacheSize\<close>.
\<close>

theorem memory_cache_holds_51:
  assumes "distinct (map fst es)" "length es = 51"
    "\<forall>e\<in>set es. now - lastAccessed (snd e) \<le> memoryCacheTimeout"
  shows "insert_all now es [] = Inr es \<and> length es > maxMemoryCacheSize"
  using insert_all_appends[of "[]" es now] assms by (simp add: maxMemoryCacheSize_def)


theorem memory_cache_holds_51_witness:
  "insert_all 50 (map numbered_entry [0..<51]) [] = Inr (map numbered_entry [0..<51]) \<and>
   length (map numbered_entry [0..<51]) > maxMemoryCacheSize"
proof -
  have "inj (\<lambda>i. ''lib'' @ digits i)" by (auto simp: inj_def dest: digits_inj)
  then have d: "distinct (map fst (map numbered_entry [0..<51]))"
    by (simp add: numbered_entry_def comp_def distinct_map inj_on_def inj_def)
  have f: "\<forall>e\<in>set (map numbered_entry [0..<51]). 50 - lastAccessed (snd e) \<le> memoryCacheTimeout"
    by (auto simp: numbered_entry_def memoryCacheTimeout_def)
  show ?thesis by (rule memory_cache_holds_51[OF d _ f]) simp
qed

subsection \<open>Content addressing\<close>

lemma setInMemoryCache_maps:
  "setInMemoryCache now name c mc = Inr mc' \<Longrightarrow> map_of mc' name = Some c"
  by (auto simp: setInMemoryCache_def map_of_map_set split: sum.splits)

lemma context_miss_success:
  "context_miss rt fc w now name path h st3 = (Inr ex, st') \<Longrightarrow>
     \<exists>c. map_of (memoryCache st') name = Some c \<and> exports c = ex"
  by (auto simp: context_miss_def Let_def split: sum.splits prod.splits
      dest!: setInMemoryCache_maps)

lemma context_body_success:
  "context_body rt fc w now name st1 = (Inr ex, st') \<Longrightarrow>
     \<exists>c. map_of (memoryCache st') name = Some c \<and> exports c = ex"
  by (auto simp: context_body_def Let_def split: sum.splits prod.splits if_splits option.splits
      dest!: setInMemoryCache_maps context_miss_success)

lemma catch_not_found_success:
  "catch r (rethrow_or_not_found name) = (Inr ex, st') \<Longrightarrow> r = (Inr ex, st')"
  by (auto simp: catch_def rethrow_or_not_found_def split: prod.splits sum.splits if_splits)

lemma context_success:
  assumes "context rt fc w now name st = (Inr ex, st')"
  shows "validateLibraryName (paths rt) name = Inr ()"
    and "\<exists>c. map_of (memoryCache st') name = Some c \<and> exports c = ex"
proof -
  show v: "validateLibraryName (paths rt) name = Inr ()"
    using assms by (auto simp: context_def split: sum.splits)
  show "\<exists>c. map_of (memoryCache st') name = Some c \<and> exports c = ex"
  proof (cases "map_of (memoryCache st) name")
    case None
    then have "catch (context_body rt fc w now name st) (rethrow_or_not_found name)
                 = (Inr ex, st')"
      using assms v by (simp add: context_def getFromMemoryCache_def)
    then show ?thesis by (intro context_body_success[OF catch_not_found_success])
  next
    case (Some c)
    show ?thesis
    proof (cases "truthy rt (exports c)")
      case True
      then show ?thesis
        using assms v Some by (auto simp: context_def getFromMemoryCache_def Let_def map_of_map_set)
    next
      case False
      then have "catch (context_body rt fc w now name
                   (st\<lparr>memoryCache := map_set name (c\<lparr>lastAccessed := now\<rparr>) (memoryCache st)\<rparr>))
                   (rethrow_or_not_found name) = (Inr ex, st')"
        using assms v Some by (simp add: context_def getFromMemoryCache_def Let_def)
      then show ?thesis by (intro context_body_success[OF catch_not_found_success])
    qed
  qed
qed

lemma context_memory_hit:
  assumes "validateLibraryName (paths rt) name = Inr ()" "map_of (memoryCache st) name = Some c"
    "truthy rt (exports c)"
  shows "context rt fc w now name st =
           (Inr (exports c),
            st\<lparr>memoryCache := map_set name (c\<lparr>lastAccessed := now\<rparr>) (memoryCache st)\<rparr>)"
  using assms by (simp add: context_def getFromMemoryCache_def Let_def)

text \<open>
  C3. After a call of \<^verbatim>\<open>context\<close> has returned truthy exports, the next call for the
  same name returns the same exports from the in-memory tier, in every world: nothing
  is resolved, hashed or loaded, and the persistent store is not consulted. This is the
  cache hit of the claim when the file is unchanged; when the bytes of the file have
  changed, the stale exports are returned all the same.
\<close>

theorem second_context_call_ignores_file:
  assumes "context rt fc w1 t1 name st = (Inr ex, st1)" "truthy rt ex"
  shows "fst (context rt fc w2 t2 name st1) = Inr ex \<and>
         trace (snd (context rt fc w2 t2 name st1)) = trace st1 \<and>
         cache_fs (snd (context rt fc w2 t2 name st1)) = cache_fs st1"
proof -
  obtain c where c: "map_of (memoryCache st1) name = Some c" "exports c = ex"
    using context_success(2)[OF assms(1)] by blast
  have "truthy rt (exports c)" using c(2) assms(2) by simp
  from context_memory_hit[OF context_success(1)[OF assms(1)] c(1) this, of fc w2 t2]
  show ?thesis by (simp add: c(2))
qed


lemma first_call:
  "fst (context toy_runtime small_store (toy_world ''v1'') 0 ''lib'' fresh_state)
     = Inr ''exports of v1''"
  by code_simp

theorem second_context_call_ignores_file_witness:
  "fst (context toy_runtime small_store (toy_world ''v2'') 1 ''lib''
          (snd (context toy_runtime small_store (toy_world ''v1'') 0 ''lib'' fresh_state)))
     = Inr ''exports of v1'' \<and>
   trace (snd (context toy_runtime small_store (toy_world ''v2'') 1 ''lib''
          (snd (context toy_runtime small_store (toy_world ''v1'') 0 ''lib'' fresh_state))))
     = trace (snd (context toy_runtime small_store (toy_world ''v1'') 0 ''lib'' fresh_state)) \<and>
   require (toy_world ''v2'') ''/m/lib.js'' = Inr ''exports of v2'' \<and>
   getFileHash toy_runtime (toy_world ''v1'') ''/m/lib.js''
     \<noteq> getFileHash toy_runtime (toy_world ''v2'') ''/m/lib.js''"
proof -
  have c: "context toy_runtime small_store (toy_world ''v1'') 0 ''lib'' fresh_state
        = (Inr ''exports of v1'',
           snd (context toy_runtime small_store (toy_world ''v1'') 0 ''lib'' fresh_state))"
    using first_call by (metis prod.collapse)
  have t: "truthy toy_runtime ''exports of v1''" by (simp add: toy_runtime_def)
  show ?thesis
    using second_context_call_ignores_file[OF c t, of "toy_world ''v2''" 1]
    by (simp add: toy_world_def getFileHash_def toy_runtime_def)
qed

subsection \<open>The store: size accounting and eviction\<close>

lemma path_split:
  assumes "CHR ''/'' \<in> set p"
  shows "path_join (dirname p) (basename p) = p"
proof -
  let ?P = "\<lambda>c. c \<noteq> CHR ''/''"
  have ne: "dropWhile ?P (rev p) \<noteq> []" using assms by auto
  then have "\<not> ?P (hd (dropWhile ?P (rev p)))" by (rule hd_dropWhile)
  then obtain rest where r: "dropWhile ?P (rev p) = CHR ''/'' # rest"
    using ne by (cases "dropWhile ?P (rev p)") auto
  have "rev p = takeWhile ?P (rev p) @ CHR ''/'' # rest"
    using takeWhile_dropWhile_id[of ?P "rev p"] r by simp
  then have "p = rev rest @ CHR ''/'' # rev (takeWhile ?P (rev p))"
    by (metis rev_append rev.simps(2) rev_rev_ident append.assoc append_Cons append_Nil)
  then show ?thesis by (simp add: path_join_def dirname_def basename_def r)
qed

lemma dirname_no_slash:
  assumes "CHR ''/'' \<notin> set p"
  shows "dirname p = []"
proof -
  have "dropWhile (\<lambda>c. c \<noteq> CHR ''/'') (rev p) = []"
    using assms by auto
  then show ?thesis by (simp only: dirname_def drop_Nil rev.simps(1))
qed

lemma path_rejoin: "dirname p = d \<Longrightarrow> d \<noteq> [] \<Longrightarrow> path_join d (basename p) = p"
  using path_split[of p] dirname_no_slash[of p] by auto

lemma foldl_plus: "foldl (\<lambda>total sz. total + sz) a xs = a + sum_list xs" for a :: nat
  by (induction xs arbitrary: a) auto

lemma insort_key_map:
  "insort_key f (g x) (map g xs) = map g (insort_key (\<lambda>a. f (g a)) x xs)"
  by (induction xs) auto

lemma sort_key_map: "sort_key f (map g xs) = map g (sort_key (\<lambda>a. f (g a)) xs)"
  by (induction xs) (auto simp: insort_key_map)

lemma readdir_entries:
  "d \<in> set (dirs fs) \<Longrightarrow> d \<notin> set (unlistable fs) \<and> flat_dir d fs \<Longrightarrow>
     readdir fs d = Inr (map (\<lambda>e. basename (fst e)) (dir_entries d fs))"
  by (simp add: readdir_def dir_entries_def flat_dir_def filter_map comp_def)

lemma stat_all_entries:
  assumes "distinct (map fst (files fs))" "d \<noteq> []"
    "set E \<subseteq> set (files fs)" "\<forall>e\<in>set E. dirname (fst e) = d"
  shows "stat_all fs d (map (\<lambda>e. basename (fst e)) E) =
           (if \<forall>e\<in>set E. f_stat_ok (snd e) then Inr (map entry_stats E)
            else Inl (SysError ''EACCES''))"
  using assms(3,4)
proof (induction E)
  case Nil
  then show ?case by simp
next
  case (Cons e E)
  have j: "path_join d (basename (fst e)) = fst e"
    using Cons.prems assms(2) by (intro path_rejoin) auto
  have "(fst e, snd e) \<in> set (files fs)" using Cons.prems by auto
  then have m: "map_of (files fs) (fst e) = Some (snd e)"
    using assms(1) by simp
  have ih: "stat_all fs d (map (\<lambda>e. basename (fst e)) E) =
           (if \<forall>e\<in>set E. f_stat_ok (snd e) then Inr (map entry_stats E)
            else Inl (SysError ''EACCES''))"
    using Cons.prems by (intro Cons.IH) auto
  show ?case
    by (simp add: entry_stats_def[of e] j stat_def m ih)
qed


lemma sum_filter_remove:
  fixes g :: "'a \<times> 'b \<Rightarrow> nat"
  assumes "distinct (map fst xs)" "(p, f) \<in> set xs" "Q (p, f)"
  shows "sum_list (map g (filter Q (filter (\<lambda>e. fst e \<noteq> p) xs))) + g (p, f)
           = sum_list (map g (filter Q xs))"
  using assms
proof (induction xs)
  case Nil
  then show ?case by simp
next
  case (Cons e xs)
  show ?case
  proof (cases "e = (p, f)")
    case True
    then have "p \<notin> fst ` set xs" using Cons.prems(1) by auto
    then have "filter (\<lambda>e. fst e \<noteq> p) xs = xs" by (intro filter_True) auto
    then show ?thesis using True Cons.prems(3) by simp
  next
    case False
    then have "(p, f) \<in> set xs" using Cons.prems(2) by auto
    moreover have "fst e \<noteq> p" using Cons.prems(1) calculation by (auto simp: image_iff)
    ultimately show ?thesis using Cons by auto
  qed
qed

lemma dir_size_unlink:
  assumes "distinct (map fst (files fs))" "e \<in> set (files fs)" "dirname (fst e) = d"
  shows "dir_size d (fs\<lparr>files := filter (\<lambda>x. fst x \<noteq> fst e) (files fs)\<rparr>) + f_size (snd e)
           = dir_size d fs"
  using sum_filter_remove[OF assms(1), of "fst e" "snd e" "\<lambda>x. dirname (fst x) = d"
      "\<lambda>x. f_size (snd x)"] assms(2,3)
  by (simp add: dir_size_def dir_entries_def)

lemma unlink_entry:
  assumes "distinct (map fst (files fs))" "e \<in> set (files fs)"
  shows "unlink (fst e) fs =
           (if f_unlink_ok (snd e)
            then (Inr (), fs\<lparr>files := filter (\<lambda>x. fst x \<noteq> fst e) (files fs)\<rparr>)
            else (Inl (SysError ''EPERM''), fs))"
proof -
  have "(fst e, snd e) \<in> set (files fs)" using assms(2) by simp
  then have "map_of (files fs) (fst e) = Some (snd e)" using assms(1) by simp
  then show ?thesis by (simp add: unlink_def)
qed

lemma evict_step:
  assumes "distinct (map fst (files fs))" "e \<in> set (files fs)" "dirname (fst e) = cacheDir cm"
    "cacheDir cm \<noteq> []"
  shows "evict cm (entry_stats e # map entry_stats E) sz fs =
           (if sz \<le> maxSize cm then (Inr (), fs)
            else if f_unlink_ok (snd e)
              then evict cm (map entry_stats E) (sz - int (f_size (snd e)))
                     (fs\<lparr>files := filter (\<lambda>x. fst x \<noteq> fst e) (files fs)\<rparr>)
            else (Inl (SysError ''EPERM''), fs))"
  by (simp add: entry_stats_def[of e] path_rejoin[OF assms(3,4)] unlink_entry[OF assms(1,2)])

lemma evict_bound:
  assumes "distinct (map fst (files fs))" "cacheDir cm \<noteq> []" "set E \<subseteq> set (files fs)"
    "\<forall>e\<in>set E. dirname (fst e) = cacheDir cm \<and> f_unlink_ok (snd e)" "distinct (map fst E)"
    "set (dir_entries (cacheDir cm) fs) \<subseteq> set E" "sz = int (dir_size (cacheDir cm) fs)"
    "0 \<le> maxSize cm"
  shows "int (dir_size (cacheDir cm) (snd (evict cm (map entry_stats E) sz fs))) \<le> maxSize cm"
  using assms(1,3,4,5,6,7)
proof (induction E arbitrary: sz fs)
  case Nil
  then have "dir_entries (cacheDir cm) fs = []" by simp
  then show ?case using assms(8) by (simp add: dir_size_def)
next
  case (Cons e E)
  let ?fs' = "fs\<lparr>files := filter (\<lambda>x. fst x \<noteq> fst e) (files fs)\<rparr>"
  have e: "e \<in> set (files fs)" "dirname (fst e) = cacheDir cm" "f_unlink_ok (snd e)"
    using Cons.prems by auto
  note step = evict_step[OF Cons.prems(1) e(1,2) assms(2), of E sz]
  show ?case
  proof (cases "sz \<le> maxSize cm")
    case True
    then have r: "snd (evict cm (map entry_stats (e # E)) sz fs) = fs" by (simp add: step)
    show ?thesis unfolding r using True Cons.prems(6) by simp
  next
    case False
    have d': "distinct (map fst (files ?fs'))"
      using Cons.prems(1) by (simp add: distinct_map_filter)
    have notin: "fst e \<notin> fst ` set E" using Cons.prems(4) by auto
    have sub: "set E \<subseteq> set (files ?fs')"
      using Cons.prems(2) notin by (auto simp: image_iff)
    have ent: "set (dir_entries (cacheDir cm) ?fs') \<subseteq> set E"
      using Cons.prems(5) by (auto simp: dir_entries_def)
    have sz': "sz - int (f_size (snd e)) = int (dir_size (cacheDir cm) ?fs')"
      using dir_size_unlink[OF Cons.prems(1) e(1,2)] Cons.prems(6) by simp
    have "int (dir_size (cacheDir cm)
            (snd (evict cm (map entry_stats E) (sz - int (f_size (snd e))) ?fs'))) \<le> maxSize cm"
      using Cons.prems(3,4) by (intro Cons.IH[OF d' sub _ _ ent sz']) auto
    moreover have "evict cm (map entry_stats (e # E)) sz fs
        = evict cm (map entry_stats E) (sz - int (f_size (snd e))) ?fs'"
      using False e(3) by (simp add: step)
    ultimately show ?thesis by simp
  qed
qed

lemma evict_prefix:
  assumes "distinct (map fst (files fs))" "cacheDir cm \<noteq> []" "set E \<subseteq> set (files fs)"
    "\<forall>e\<in>set E. dirname (fst e) = cacheDir cm" "distinct (map fst E)"
  shows "\<exists>k. files (snd (evict cm (map entry_stats E) sz fs))
               = filter (\<lambda>x. fst x \<notin> fst ` set (take k E)) (files fs)"
  using assms(1,3,4,5)
proof (induction E arbitrary: sz fs)
  case Nil
  then show ?case by simp
next
  case (Cons e E)
  let ?fs' = "fs\<lparr>files := filter (\<lambda>x. fst x \<noteq> fst e) (files fs)\<rparr>"
  have e: "e \<in> set (files fs)" "dirname (fst e) = cacheDir cm"
    using Cons.prems by auto
  note step = evict_step[OF Cons.prems(1) e(1,2) assms(2), of E sz]
  have zero: "files fs = filter (\<lambda>x. fst x \<notin> fst ` set (take 0 (e # E))) (files fs)"
    by simp
  show ?case
  proof (cases "sz \<le> maxSize cm \<or> \<not> f_unlink_ok (snd e)")
    case True
    then have "files (snd (evict cm (map entry_stats (e # E)) sz fs)) = files fs"
      by (auto simp: step)
    with zero show ?thesis by metis
  next
    case False
    have d': "distinct (map fst (files ?fs'))"
      using Cons.prems(1) by (simp add: distinct_map_filter)
    have notin: "fst e \<notin> fst ` set E" using Cons.prems(4) by auto
    have sub: "set E \<subseteq> set (files ?fs')"
      using Cons.prems(2) notin by (auto simp: image_iff)
    obtain k where k: "files (snd (evict cm (map entry_stats E) (sz - int (f_size (snd e))) ?fs'))
         = filter (\<lambda>x. fst x \<notin> fst ` set (take k E)) (files ?fs')"
      using Cons.IH[OF d' sub, of "sz - int (f_size (snd e))"] Cons.prems(3,4) by auto
    have "files (snd (evict cm (map entry_stats (e # E)) sz fs))
         = filter (\<lambda>x. fst x \<notin> fst ` set (take (Suc k) (e # E))) (files fs)"
      using False k by (auto simp: step intro: filter_cong)
    then show ?thesis by blast
  qed
qed


lemma dir_entries_facts:
  "set (dir_entries d fs) \<subseteq> set (files fs)"
  "\<forall>e\<in>set (dir_entries d fs). dirname (fst e) = d"
  "distinct (map fst (files fs)) \<Longrightarrow> distinct (map fst (dir_entries d fs))"
  by (auto simp: dir_entries_def distinct_map_filter)

lemma getCacheSize_dir:
  assumes "distinct (map fst (files fs))" "cacheDir cm \<noteq> []" "cacheDir cm \<in> set (dirs fs)"
    "cacheDir cm \<notin> set (unlistable fs) \<and> flat_dir (cacheDir cm) fs"
  shows "getCacheSize cm fs =
           (if \<forall>e\<in>set (dir_entries (cacheDir cm) fs). f_stat_ok (snd e)
            then dir_size (cacheDir cm) fs else 0)"
  by (simp add: getCacheSize_def readdir_entries[OF assms(3,4)]
      stat_all_entries[OF assms(1,2) dir_entries_facts(1,2)] foldl_plus dir_size_def
      entry_stats_def comp_def)

lemma catch_simps:
  "catch (Inl e, s) h = h e s" "catch (Inr a, s) h = (Inr a, s)"
  by (simp_all add: catch_def)

lemma snd_catch_swallow: "snd (catch r (\<lambda>error s. (Inr x, s))) = snd r"
  by (auto simp: catch_def split: prod.splits sum.splits)

lemma ensureCacheSpace_dir:
  assumes "distinct (map fst (files fs))" "cacheDir cm \<noteq> []" "cacheDir cm \<in> set (dirs fs)"
    "cacheDir cm \<notin> set (unlistable fs) \<and> flat_dir (cacheDir cm) fs"
  shows "snd (ensureCacheSpace cm fs) =
           (if (\<forall>e\<in>set (dir_entries (cacheDir cm) fs). f_stat_ok (snd e)) \<and>
               int (dir_size (cacheDir cm) fs) > maxSize cm
            then snd (evict cm
                        (map entry_stats
                           (sort_key (\<lambda>e. f_atime (snd e)) (dir_entries (cacheDir cm) fs)))
                        (int (dir_size (cacheDir cm) fs)) fs)
            else fs)"
proof -
  have k: "sort_key (\<lambda>e. st_atime (snd e)) (map entry_stats E)
             = map entry_stats (sort_key (\<lambda>e. f_atime (snd e)) E)" for E :: "(string \<times> 'a fnode) list"
    by (simp add: sort_key_map entry_stats_def)
  show ?thesis
    by (simp add: ensureCacheSpace_def Let_def getCacheSize_dir[OF assms]
        readdir_entries[OF assms(3,4)] stat_all_entries[OF assms(1,2) dir_entries_facts(1,2)]
        snd_catch_swallow k catch_simps)
qed

lemma sorted_entries_facts:
  assumes "distinct (map fst (files fs))"
  shows "set (sort_key f (dir_entries d fs)) \<subseteq> set (files fs)"
    and "\<forall>e\<in>set (sort_key f (dir_entries d fs)). dirname (fst e) = d"
    and "distinct (map fst (sort_key f (dir_entries d fs)))"
proof -
  show "set (sort_key f (dir_entries d fs)) \<subseteq> set (files fs)"
    using dir_entries_facts(1)[of d fs] by simp
  show "\<forall>e\<in>set (sort_key f (dir_entries d fs)). dirname (fst e) = d"
    using dir_entries_facts(2)[of d fs] by simp
  have "distinct (map fst (dir_entries d fs))" using assms by (rule dir_entries_facts(3))
  then show "distinct (map fst (sort_key f (dir_entries d fs)))"
    by (simp add: distinct_map)
qed

lemma ensureCacheSpace_bound:
  assumes "distinct (map fst (files fs))" "cacheDir cm \<noteq> []" "cacheDir cm \<in> set (dirs fs)"
    "cacheDir cm \<notin> set (unlistable fs) \<and> flat_dir (cacheDir cm) fs"
    "\<forall>e\<in>set (dir_entries (cacheDir cm) fs). f_stat_ok (snd e) \<and> f_unlink_ok (snd e)"
    "0 \<le> maxSize cm"
  shows "int (dir_size (cacheDir cm) (snd (ensureCacheSpace cm fs))) \<le> maxSize cm"
proof (cases "int (dir_size (cacheDir cm) fs) > maxSize cm")
  case True
  let ?E = "sort_key (\<lambda>e. f_atime (snd e)) (dir_entries (cacheDir cm) fs)"
  have "int (dir_size (cacheDir cm)
          (snd (evict cm (map entry_stats ?E) (int (dir_size (cacheDir cm) fs)) fs))) \<le> maxSize cm"
    using assms(5) sorted_entries_facts[OF assms(1), of _ "cacheDir cm"]
    by (intro evict_bound[OF assms(1,2) _ _ _ _ _ assms(6)]) auto
  then show ?thesis using True assms(5) by (simp add: ensureCacheSpace_dir[OF assms(1-4)])
next
  case False
  then show ?thesis by (simp add: ensureCacheSpace_dir[OF assms(1-4)])
qed

lemma ensureCacheSpace_distinct:
  assumes "distinct (map fst (files fs))" "cacheDir cm \<noteq> []" "cacheDir cm \<in> set (dirs fs)"
    "cacheDir cm \<notin> set (unlistable fs) \<and> flat_dir (cacheDir cm) fs"
  shows "distinct (map fst (files (snd (ensureCacheSpace cm fs))))"
proof -
  let ?E = "sort_key (\<lambda>e. f_atime (snd e)) (dir_entries (cacheDir cm) fs)"
  obtain k where "files (snd (evict cm (map entry_stats ?E) (int (dir_size (cacheDir cm) fs)) fs))
      = filter (\<lambda>x. fst x \<notin> fst ` set (take k ?E)) (files fs)"
    using evict_prefix[OF assms(1,2) sorted_entries_facts[OF assms(1)]] by blast
  then show ?thesis
    using assms(1) by (simp add: ensureCacheSpace_dir[OF assms] distinct_map_filter)
qed

lemma sum_filter_replace:
  fixes g :: "'a \<times> 'b \<Rightarrow> nat"
  assumes "distinct (map fst xs)"
    and "\<forall>e. g (p, h e) \<le> n"
  shows "sum_list (map g (filter Q (map (\<lambda>e. if fst e = p then (p, h e) else e) xs)))
           \<le> sum_list (map g (filter Q xs)) + n"
  using assms(1)
proof (induction xs)
  case Nil
  then show ?case by simp
next
  case (Cons e xs)
  show ?case
  proof (cases "fst e = p")
    case True
    then have "p \<notin> fst ` set xs" using Cons.prems by auto
    then have "map (\<lambda>e. if fst e = p then (p, h e) else e) xs = xs"
      by (intro map_idI) (auto simp: image_iff)
    moreover have "g (p, h e) \<le> n" using assms(2) by blast
    ultimately show ?thesis using True by (auto simp: trans_le_add2)
  next
    case False
    then show ?thesis using Cons by auto
  qed
qed

lemma writeFile_bound:
  assumes "distinct (map fst (files fs))"
  shows "dir_size d (snd (writeFile now p c n fs)) \<le> dir_size d fs + n"
  using sum_filter_replace[OF assms, of "\<lambda>e. f_size (snd e)" p
      "\<lambda>e. (new_file now c n)\<lparr>f_atime := f_atime (snd e)\<rparr>" n "\<lambda>e. dirname (fst e) = d"]
  by (auto simp: writeFile_def dir_size_def dir_entries_def new_file_def)

lemma set_bound:
  assumes "distinct (map fst (files fs))" "cacheDir cm \<noteq> []" "cacheDir cm \<in> set (dirs fs)"
    "cacheDir cm \<notin> set (unlistable fs) \<and> flat_dir (cacheDir cm) fs"
    "\<forall>e\<in>set (dir_entries (cacheDir cm) fs). f_stat_ok (snd e) \<and> f_unlink_ok (snd e)"
    "0 \<le> maxSize cm"
  shows "int (dir_size (cacheDir cm) (snd (CacheManager_set J cm now key v fs)))
           \<le> maxSize cm + int (j_size J now v)"
proof -
  obtain fs1 where e: "ensureCacheSpace cm fs = (Inr (), fs1)"
    using ensureCacheSpace_returns[of cm fs] by (cases "ensureCacheSpace cm fs") auto
  have b: "int (dir_size (cacheDir cm) fs1) \<le> maxSize cm"
    using ensureCacheSpace_bound[OF assms] e by simp
  have d: "distinct (map fst (files fs1))"
    using ensureCacheSpace_distinct[OF assms(1-4)] e by simp
  have "snd (CacheManager_set J cm now key v fs) = fs1 \<or>
        (\<exists>v'. snd (CacheManager_set J cm now key v fs)
           = snd (writeFile now (getCacheFilePath cm key) (Parsed now v') (j_size J now v) fs1))"
    by (auto simp: CacheManager_set_def set_body_def e Let_def snd_catch_swallow
        split: option.splits)
  then show ?thesis
  proof
    assume "snd (CacheManager_set J cm now key v fs) = fs1"
    then show ?thesis using b by simp
  next
    assume "\<exists>v'. snd (CacheManager_set J cm now key v fs)
           = snd (writeFile now (getCacheFilePath cm key) (Parsed now v') (j_size J now v) fs1)"
    then obtain v' where w: "snd (CacheManager_set J cm now key v fs)
           = snd (writeFile now (getCacheFilePath cm key) (Parsed now v') (j_size J now v) fs1)"
      by blast
    have "dir_size (cacheDir cm) (snd (CacheManager_set J cm now key v fs))
            \<le> dir_size (cacheDir cm) fs1 + j_size J now v"
      unfolding w by (rule writeFile_bound[OF d])
    then show ?thesis using b by linarith
  qed
qed


lemma eviction_order:
  assumes "distinct (map fst (files fs))" "cacheDir cm \<noteq> []" "cacheDir cm \<in> set (dirs fs)"
    "cacheDir cm \<notin> set (unlistable fs) \<and> flat_dir (cacheDir cm) fs"
    "e \<in> set (dir_entries (cacheDir cm) fs)"
    "e \<notin> set (files (snd (ensureCacheSpace cm fs)))"
    "e' \<in> set (dir_entries (cacheDir cm) (snd (ensureCacheSpace cm fs)))"
  shows "f_atime (snd e) \<le> f_atime (snd e')"
proof -
  let ?d = "cacheDir cm"
  let ?E = "sort_key (\<lambda>e. f_atime (snd e)) (dir_entries ?d fs)"
  let ?fs1 = "snd (evict cm (map entry_stats ?E) (int (dir_size ?d fs)) fs)"
  have ev: "snd (ensureCacheSpace cm fs) = ?fs1"
    using assms(5,6) ensureCacheSpace_dir[OF assms(1-4)]
    by (auto simp: dir_entries_def split: if_splits)
  obtain k where k: "files ?fs1 = filter (\<lambda>x. fst x \<notin> fst ` set (take k ?E)) (files fs)"
    using evict_prefix[OF assms(1,2) sorted_entries_facts[OF assms(1)]] by blast
  have ef: "e \<in> set (files fs)" using assms(5) by (simp add: dir_entries_def)
  then have "fst e \<in> fst ` set (take k ?E)" using assms(6) by (simp add: ev k)
  then obtain x where x: "x \<in> set (take k ?E)" "fst x = fst e" by auto
  have "x \<in> set (files fs)"
    using x(1) sorted_entries_facts(1)[OF assms(1)] by (meson in_set_takeD subsetD)
  then have "x = e" using ef x(2) assms(1) by (metis eq_key_imp_eq_value prod.collapse)
  then have e1: "e \<in> set (take k ?E)" using x(1) by simp
  have "e' \<in> set (dir_entries ?d ?fs1)" using assms(7) by (simp only: ev)
  then have "e' \<in> set (files ?fs1) \<and> dirname (fst e') = ?d"
    by (simp add: dir_entries_def[of ?d ?fs1])
  then have e'f: "e' \<in> set (files fs)" "fst e' \<notin> fst ` set (take k ?E)" "dirname (fst e') = ?d"
    by (simp_all add: k)
  then have "e' \<in> set ?E" by (simp add: dir_entries_def)
  then have "e' \<in> set (take k ?E) \<union> set (drop k ?E)"
    by (metis append_take_drop_id set_append)
  then have e2: "e' \<in> set (drop k ?E)" using e'f(2) by auto
  have "sorted (map (\<lambda>e. f_atime (snd e)) (take k ?E)
                @ map (\<lambda>e. f_atime (snd e)) (drop k ?E))"
    by (simp only: map_append[symmetric] append_take_drop_id sorted_sort_key)
  then have "\<forall>x\<in>set (map (\<lambda>e. f_atime (snd e)) (take k ?E)).
               \<forall>y\<in>set (map (\<lambda>e. f_atime (snd e)) (drop k ?E)). x \<le> y"
    unfolding sorted_append by blast
  moreover have "f_atime (snd e) \<in> set (map (\<lambda>e. f_atime (snd e)) (take k ?E))"
    using e1 by (simp only: set_map) (rule imageI)
  moreover have "f_atime (snd e') \<in> set (map (\<lambda>e. f_atime (snd e)) (drop k ?E))"
    using e2 by (simp only: set_map) (rule imageI)
  ultimately show ?thesis by blast
qed

text \<open>
  C5, as amended. For a store with a non-negative limit whose directory can be listed
  and holds no subdirectory, and whose files can be examined and removed: the eviction
  pass that opens every \<^verbatim>\<open>set\<close> leaves at most \<open>maxSize\<close> bytes in the directory, so
  after the \<^verbatim>\<open>set\<close> the directory holds at most \<open>maxSize\<close> bytes plus the size of the
  entry just written;
  and every entry the pass removed was last accessed no later than every entry it left
  in the directory.
\<close>

theorem size_bound_after_set:
  assumes "distinct (map fst (files fs))" "cacheDir cm \<noteq> []" "cacheDir cm \<in> set (dirs fs)"
    "cacheDir cm \<notin> set (unlistable fs) \<and> flat_dir (cacheDir cm) fs"
    "\<forall>e\<in>set (dir_entries (cacheDir cm) fs). f_stat_ok (snd e) \<and> f_unlink_ok (snd e)"
    "0 \<le> maxSize cm"
  shows "int (dir_size (cacheDir cm) (snd (ensureCacheSpace cm fs))) \<le> maxSize cm \<and>
         int (dir_size (cacheDir cm) (snd (CacheManager_set J cm now key v fs)))
           \<le> maxSize cm + int (j_size J now v) \<and>
         (\<forall>e\<in>set (dir_entries (cacheDir cm) fs).
            \<forall>e'\<in>set (dir_entries (cacheDir cm) (snd (ensureCacheSpace cm fs))).
              e \<notin> set (files (snd (ensureCacheSpace cm fs))) \<longrightarrow>
              f_atime (snd e) \<le> f_atime (snd e'))"
  using ensureCacheSpace_bound[OF assms] set_bound[OF assms] eviction_order[OF assms(1-4)]
  by blast

lemma over_fs_entries: "dir_entries (cacheDir small_store) over_fs = files over_fs"
  by (simp add: dir_entries_def small_store_def over_fs_def dirname_def)

theorem size_bound_after_set_witness:
  "int (dir_size (cacheDir small_store) (snd (ensureCacheSpace small_store over_fs)))
     \<le> maxSize small_store \<and>
   int (dir_size (cacheDir small_store)
          (snd (CacheManager_set plain_json small_store 9 ''foo'' 7 over_fs)))
     \<le> maxSize small_store + int (j_size (plain_json :: nat json) 9 7) \<and>
   files (snd (ensureCacheSpace small_store over_fs))
     = [(''/c/a'', plain_file 60 3), (''/c/c'', plain_file 40 2)]"
proof -
  have a: "distinct (map fst (files over_fs))" "cacheDir small_store \<noteq> []"
    "cacheDir small_store \<in> set (dirs over_fs)"
    "cacheDir small_store \<notin> set (unlistable over_fs) \<and> flat_dir (cacheDir small_store) over_fs"
    "0 \<le> maxSize small_store"
    by (simp_all add: over_fs_def small_store_def flat_dir_def dirname_def)
  have b: "\<forall>e\<in>set (dir_entries (cacheDir small_store) over_fs). f_stat_ok (snd e) \<and> f_unlink_ok (snd e)"
    by (simp add: over_fs_entries) (simp add: over_fs_def plain_file_def)
  have c: "files (snd (ensureCacheSpace small_store over_fs))
     = [(''/c/a'', plain_file 60 3), (''/c/c'', plain_file 40 2)]"
    by code_simp
  show ?thesis
    using size_bound_after_set[OF a(1-4) b a(5), of plain_json 9 "''foo''" 7] c by blast
qed

text \<open>
  The claim C5 as stated fails: a directory that holds exactly \<open>maxSize = 1000\<close> bytes
  in forty files of 25 bytes is not over the limit, nothing is evicted, and the
  ten-byte entry written by \<^verbatim>\<open>set\<close> takes it to 1010 bytes.
\<close>

theorem size_bound_counterexample:
  "\<not> int (dir_size (cacheDir kb_store)
            (snd (CacheManager_set plain_json kb_store 50 ''foo'' 7 full_fs)))
       \<le> maxSize kb_store"
  by code_simp

end
